theory Spec2Isabelle
  imports Main "HOL-Library.AList" "HOL-Library.Multiset"
begin

section \<open>Python strings\<close>

text \<open>
  A Python \<open>str\<close> is modelled as a \<open>string\<close>: a list of characters, each standing for one
  code point below 256. The helpers below are the built-in string methods that
  \<^verbatim>\<open>SC-Scanner.py\<close> calls, with the behaviour CPython gives them.
\<close>

text \<open>\<^verbatim>\<open>str.isspace\<close> on one character: the code points below 256 that \<^verbatim>\<open>str.strip()\<close>
  removes.\<close>

definition py_isspace :: "char \<Rightarrow> bool" where
  "py_isspace c = ((of_char c :: nat) \<in> set [9, 10, 11, 12, 13, 28, 29, 30, 31, 32, 133, 160])"

text \<open>\<^verbatim>\<open>s.strip()\<close>: whitespace removed at both ends.\<close>

definition strip :: "string \<Rightarrow> string" where
  "strip s = rev (dropWhile py_isspace (rev (dropWhile py_isspace s)))"

text \<open>\<^verbatim>\<open>s.split(sep)\<close> for a one-character separator: every occurrence splits, and the
  result always has at least one piece.\<close>

fun split_on :: "char \<Rightarrow> string \<Rightarrow> string list" where
  "split_on sep [] = [[]]"
| "split_on sep (c # cs) =
     (if c = sep then [] # split_on sep cs
      else (case split_on sep cs of [] \<Rightarrow> [[c]] | p # ps \<Rightarrow> (c # p) # ps))"

text \<open>\<^verbatim>\<open>sep.join(parts)\<close>.\<close>

fun join :: "string \<Rightarrow> string list \<Rightarrow> string" where
  "join sep [] = []"
| "join sep [p] = p"
| "join sep (p # q # ps) = p @ sep @ join sep (q # ps)"

text \<open>\<^verbatim>\<open>s.replace(old, new)\<close>: every non-overlapping occurrence of \<open>old\<close>, scanning from the
  left, is replaced. With an empty \<open>old\<close>, \<open>new\<close> is inserted before every character and
  at the end.\<close>

function py_replace :: "string \<Rightarrow> string \<Rightarrow> string \<Rightarrow> string" where
  "py_replace old new [] = (if old = [] then new else [])"
| "py_replace old new (c # cs) =
     (if old = [] then new @ concat (map (\<lambda>x. x # new) (c # cs))
      else if take (length old) (c # cs) = old
        then new @ py_replace old new (drop (length old) (c # cs))
      else c # py_replace old new cs)"
  by pat_completeness auto
termination
  by (relation "measure (\<lambda>(old, new, s). length s)") auto

text \<open>\<^verbatim>\<open>str(n)\<close> for a non-negative integer, as the f-string \<^verbatim>\<open>f"{len(x)} findings"\<close>
  prints it.\<close>

definition digit_char :: "nat \<Rightarrow> char" where
  "digit_char d = ''0123456789'' ! d"

function str_nat :: "nat \<Rightarrow> string" where
  "str_nat n = (if n < 10 then [digit_char n] else str_nat (n div 10) @ [digit_char (n mod 10)])"
  by pat_completeness auto
termination
  by (relation "measure id") auto

declare str_nat.simps [simp del]

text \<open>The file object iterated line by line: every line keeps its terminating newline,
  the last line may lack one.\<close>

fun file_lines :: "string \<Rightarrow> string list" where
  "file_lines [] = []"
| "file_lines (c # cs) =
     (if c = CHR 0x0A then [c] # file_lines cs
      else (case file_lines cs of [] \<Rightarrow> [[c]] | l # ls \<Rightarrow> (c # l) # ls))"

text \<open>\<^verbatim>\<open>os.path.join(a, b)\<close> on a POSIX system, for two components.\<close>

definition path_join :: "string \<Rightarrow> string \<Rightarrow> string" where
  "path_join a b =
     (if b \<noteq> [] \<and> hd b = CHR ''/'' then b
      else if a = [] \<or> last a = CHR ''/'' then a @ b
      else a @ ''/'' @ b)"

text \<open>The colour prefixes of \<^verbatim>\<open>colorama.Fore\<close>.\<close>

definition Fore_RED :: string where
  "Fore_RED = CHR 0x1B # ''[31m''"

definition Fore_YELLOW :: string where
  "Fore_YELLOW = CHR 0x1B # ''[33m''"

section \<open>Python values and exceptions\<close>

text \<open>
  The values that flow through the scanner are what \<^verbatim>\<open>json.loads\<close> produces, together
  with \<^verbatim>\<open>None\<close>, the string \<^verbatim>\<open>"timeout"\<close> and lists of decoded records: one datatype
  holds them all. A \<open>PDict\<close> lists its items in insertion order, with distinct keys.
  JSON numbers are the integers; floating-point numbers are outside the model.
\<close>

datatype pyval =
    PNone
  | PBool bool
  | PInt int
  | PStr string
  | PList "pyval list"
  | PDict "(string \<times> pyval) list"

text \<open>Exceptions are the subclasses of \<^verbatim>\<open>Exception\<close> that the code can meet, each with
  the message \<^verbatim>\<open>str(e)\<close> gives.\<close>

datatype exn_class =
    TimeoutExpired
  | JSONDecodeError
  | AttributeError
  | TypeError
  | KeyError
  | OSError
  | OtherException

datatype exn = Exn exn_class string

fun exn_class_of :: "exn \<Rightarrow> exn_class" where
  "exn_class_of (Exn c m) = c"

fun exn_str :: "exn \<Rightarrow> string" where
  "exn_str (Exn c m) = m"

text \<open>Truthiness, as \<^verbatim>\<open>if x:\<close> tests it.\<close>

fun truthy :: "pyval \<Rightarrow> bool" where
  "truthy PNone = False"
| "truthy (PBool b) = b"
| "truthy (PInt i) = (i \<noteq> 0)"
| "truthy (PStr s) = (s \<noteq> [])"
| "truthy (PList xs) = (xs \<noteq> [])"
| "truthy (PDict kvs) = (kvs \<noteq> [])"

text \<open>Truthiness of a path that may be \<^verbatim>\<open>None\<close>: what \<^verbatim>\<open>if not shutil.which(tool)\<close>
  tests.\<close>

definition path_truthy :: "string option \<Rightarrow> bool" where
  "path_truthy r = (case r of None \<Rightarrow> False | Some path \<Rightarrow> path \<noteq> [])"

text \<open>\<^verbatim>\<open>type(x).__name__\<close>, used in the messages of the built-in errors.\<close>

fun type_name :: "pyval \<Rightarrow> string" where
  "type_name PNone = ''NoneType''"
| "type_name (PBool b) = ''bool''"
| "type_name (PInt i) = ''int''"
| "type_name (PStr s) = ''str''"
| "type_name (PList xs) = ''list''"
| "type_name (PDict kvs) = ''dict''"

text \<open>\<^verbatim>\<open>len(x)\<close>: defined on strings, lists and dicts, a \<^verbatim>\<open>TypeError\<close> otherwise.\<close>

fun py_len :: "pyval \<Rightarrow> exn + nat" where
  "py_len (PStr s) = Inr (length s)"
| "py_len (PList xs) = Inr (length xs)"
| "py_len (PDict kvs) = Inr (length kvs)"
| "py_len v = Inl (Exn TypeError (''object of type '' @ [CHR 0x27] @ type_name v @ [CHR 0x27] @ '' has no len()''))"

text \<open>\<^verbatim>\<open>data.get(key, {})\<close>: only a dict has the method; on any other value the attribute
  lookup raises \<^verbatim>\<open>AttributeError\<close>.\<close>

fun py_get :: "pyval \<Rightarrow> string \<Rightarrow> exn + pyval" where
  "py_get (PDict kvs) key = Inr (case map_of kvs key of Some v \<Rightarrow> v | None \<Rightarrow> PDict [])"
| "py_get v key =
     Inl (Exn AttributeError
       ([CHR 0x27] @ type_name v @ [CHR 0x27] @ '' object has no attribute '' @ [CHR 0x27] @ ''get'' @ [CHR 0x27]))"

text \<open>\<^verbatim>\<open>isinstance(x, dict)\<close>: the value is a JSON object.\<close>

fun is_dict :: "pyval \<Rightarrow> bool" where
  "is_dict (PDict kvs) = True"
| "is_dict v = False"

section \<open>The tool registry\<close>

record tool_config =
  cfg_command :: string
  cfg_timeout :: nat
  cfg_output_key :: "string option"

text \<open>The dict \<^verbatim>\<open>TOOLS\<close>, in its declaration order.\<close>

definition TOOLS :: "(string \<times> tool_config) list" where
  "TOOLS =
     [(''trufflehog'',
        \<lparr>cfg_command = ''trufflehog git --only-verified --json {repo_url}'',
         cfg_timeout = 3600,
         cfg_output_key = None\<rparr>),
      (''gitleaks'',
        \<lparr>cfg_command = ''gitleaks detect --source {repo_dir} --no-git --exit-code 0 --report-format json'',
         cfg_timeout = 600,
         cfg_output_key = Some ''Findings''\<rparr>)]"

text \<open>\<^verbatim>\<open>config["command"].format(repo_dir=..., repo_url=...)\<close>: one pass over the template
  that fills the two named fields; the templates of \<open>TOOLS\<close> hold no other brace.\<close>

function format_command :: "string \<Rightarrow> string \<Rightarrow> string \<Rightarrow> string" where
  "format_command [] repo_dir repo_url = []"
| "format_command (c # cs) repo_dir repo_url =
     (if take 10 (c # cs) = ''{repo_dir}''
        then repo_dir @ format_command (drop 10 (c # cs)) repo_dir repo_url
      else if take 10 (c # cs) = ''{repo_url}''
        then repo_url @ format_command (drop 10 (c # cs)) repo_dir repo_url
      else c # format_command cs repo_dir repo_url)"
  by pat_completeness auto
termination
  by (relation "measure (\<lambda>(template, repo_dir, repo_url). length template)") auto

section \<open>The world a scan task runs in\<close>

text \<open>
  What a task does to the outside world is recorded as a trace of events; what the
  outside world answers is a parameter of the model.
\<close>

datatype event =
    Print string
  | CloneFrom string string
  | Subprocess string

text \<open>
  \<^item> \<open>mkdtemp\<close>: \<^verbatim>\<open>tempfile.TemporaryDirectory()\<close>, the directory's path or the error raised;
  \<^item> \<open>cleanup\<close>: leaving the \<^verbatim>\<open>with\<close> block removes the directory, which may raise;
  \<^item> \<open>clone_from\<close>: \<^verbatim>\<open>Repo.clone_from(repo_url, repo_dir)\<close>, \<open>None\<close> when the clone succeeds;
  \<^item> \<open>subprocess_run\<close>: \<^verbatim>\<open>subprocess.run(command, ..., timeout=t)\<close>, the captured standard
    output or the exception raised (\<open>TimeoutExpired\<close> when the time limit is exceeded).
\<close>

record task_env =
  mkdtemp :: "exn + string"
  cleanup :: "string \<Rightarrow> exn option"
  clone_from :: "string \<Rightarrow> string \<Rightarrow> exn option"
  subprocess_run :: "string \<Rightarrow> nat \<Rightarrow> exn + string"

text \<open>\<^verbatim>\<open>json.loads\<close> is a parameter as well: a function from a line of text to the decoded
  value or to the exception raised.\<close>

type_synonym json_loads = "string \<Rightarrow> exn + pyval"

section \<open>The repository fetcher\<close>

text \<open>The directory name that \<open>clone_repo\<close> derives from the URL.\<close>

definition repo_name_of :: "string \<Rightarrow> string" where
  "repo_name_of repo_url = py_replace ''.git'' [] (last (split_on CHR ''/'' repo_url))"

text \<open>\<open>clone_repo\<close> returns what it printed and the directory, or \<open>None\<close> when the clone
  raised: every statement of its body is inside \<^verbatim>\<open>try ... except Exception\<close>.\<close>

definition clone_repo :: "task_env \<Rightarrow> string \<Rightarrow> string \<Rightarrow> event list \<times> string option" where
  "clone_repo env repo_url temp_dir =
     (let repo_name = repo_name_of repo_url;
          repo_dir = path_join temp_dir repo_name
      in case clone_from env repo_url repo_dir of
           None \<Rightarrow> ([CloneFrom repo_url repo_dir], Some repo_dir)
         | Some e \<Rightarrow>
             ([CloneFrom repo_url repo_dir,
               Print (Fore_RED @ ''Clone failed: '' @ repo_url),
               Print (Fore_YELLOW @ ''Error: '' @ exn_str e)],
              None))"

section \<open>The tool runner\<close>

text \<open>The decoding loop of \<open>run_tool\<close>: every non-blank line is decoded and appended to
  \<open>output\<close>; the first exception stops the loop and is returned with the line that
  raised it.\<close>

fun decode_lines :: "json_loads \<Rightarrow> string list \<Rightarrow> pyval list \<Rightarrow> (exn \<times> string) + pyval list" where
  "decode_lines loads [] output = Inr output"
| "decode_lines loads (line # rest) output =
     (if strip line \<noteq> [] then
        (case loads line of
           Inl e \<Rightarrow> Inl (e, line)
         | Inr parsed_line \<Rightarrow> decode_lines loads rest (output @ [parsed_line]))
      else decode_lines loads rest output)"

definition decode_stdout :: "json_loads \<Rightarrow> string \<Rightarrow> (exn \<times> string) + pyval list" where
  "decode_stdout loads stdout =
     (if strip stdout \<noteq> [] then decode_lines loads (split_on CHR 0x0A (strip stdout)) []
      else Inr [])"

text \<open>The walk along the keys of the output-key path.\<close>

fun walk_keys :: "string list \<Rightarrow> pyval \<Rightarrow> exn + pyval" where
  "walk_keys [] data = Inr data"
| "walk_keys (key # keys) data =
     (case py_get data key of Inl e \<Rightarrow> Inl e | Inr v \<Rightarrow> walk_keys keys v)"

text \<open>The last part of \<open>run_tool\<close>: what is returned for the decoded \<open>output\<close>, given the
  tool's \<^verbatim>\<open>output_key\<close>.\<close>

definition extract_output :: "string option \<Rightarrow> pyval list \<Rightarrow> exn + pyval" where
  "extract_output okey output =
     (case okey of
        None \<Rightarrow> Inr (if output \<noteq> [] then PList output else PNone)
      | Some k \<Rightarrow>
          if k = [] then Inr (if output \<noteq> [] then PList output else PNone)
          else
            (case walk_keys (split_on CHR ''.'' k) (if output \<noteq> [] then hd output else PDict []) of
               Inl e \<Rightarrow> if exn_class_of e = AttributeError then Inr (PList []) else Inl e
             | Inr data \<Rightarrow> Inr (if truthy data then data else PNone)))"

text \<open>\<open>run_tool\<close>: the events, and the value returned or the exception that escapes.\<close>

definition run_tool ::
  "json_loads \<Rightarrow> task_env \<Rightarrow> string \<Rightarrow> string \<Rightarrow> string \<Rightarrow> string \<Rightarrow> event list \<times> (exn + pyval)" where
  "run_tool loads env tool_name command repo_dir repo_url =
     (case map_of TOOLS tool_name of
        None \<Rightarrow> ([], Inl (Exn KeyError tool_name))
      | Some config \<Rightarrow>
          (case subprocess_run env command (cfg_timeout config) of
             Inl e \<Rightarrow>
               if exn_class_of e = TimeoutExpired
               then ([Subprocess command, Print (Fore_YELLOW @ tool_name @ '' timed out'')],
                     Inr (PStr ''timeout''))
               else ([Subprocess command], Inl e)
           | Inr stdout \<Rightarrow>
               (case decode_stdout loads stdout of
                  Inl (e, line) \<Rightarrow>
                    if exn_class_of e = JSONDecodeError
                    then ([Subprocess command,
                           Print (Fore_YELLOW @ tool_name @ '' JSON error: '' @ exn_str e
                                  @ '' (line: '' @ take 200 line @ '')'')],
                          Inr PNone)
                    else ([Subprocess command], Inl e)
                | Inr output \<Rightarrow> ([Subprocess command], extract_output (cfg_output_key config) output))))"

section \<open>Scanning one repository\<close>

text \<open>The dict \<^verbatim>\<open>results\<close> of \<open>clone_and_scan\<close>; its two inner dicts keep insertion order.\<close>

record scan_result =
  findings :: "(string \<times> pyval) list"
  status :: "(string \<times> string) list"
  error :: "string option"

text \<open>The status expression of \<open>clone_and_scan\<close>:
  \<^verbatim>\<open>"Timed out" if tool_results == "timeout" else f"{len(tool_results)} findings" if tool_results else "Clean"\<close>.
  \<^verbatim>\<open>len\<close> may raise.\<close>

definition status_string :: "pyval \<Rightarrow> exn + string" where
  "status_string tool_results =
     (if tool_results = PStr ''timeout'' then Inr ''Timed out''
      else if truthy tool_results then
        (case py_len tool_results of
           Inl e \<Rightarrow> Inl e
         | Inr n \<Rightarrow> Inr (str_nat n @ '' findings''))
      else Inr ''Clean'')"

text \<open>The loop over \<^verbatim>\<open>TOOLS.items()\<close>. It threads \<^verbatim>\<open>results\<close> and the trace, and stops at
  the first exception, which it returns with the \<^verbatim>\<open>results\<close> as mutated until then: the
  tool's findings are stored before its status is computed.\<close>

fun scan_tools ::
  "json_loads \<Rightarrow> task_env \<Rightarrow> string \<Rightarrow> string \<Rightarrow> (string \<times> tool_config) list
     \<Rightarrow> scan_result \<Rightarrow> event list \<Rightarrow> exn option \<times> scan_result \<times> event list" where
  "scan_tools loads env repo_dir repo_url [] results evs = (None, results, evs)"
| "scan_tools loads env repo_dir repo_url ((tool, config) # rest) results evs =
     (let command = format_command (cfg_command config) repo_dir repo_url
      in case run_tool loads env tool command repo_dir repo_url of
           (evs1, Inl e) \<Rightarrow> (Some e, results, evs @ evs1)
         | (evs1, Inr tool_results) \<Rightarrow>
             (let results1 = results\<lparr>findings := AList.update tool tool_results (findings results)\<rparr>
              in case status_string tool_results of
                   Inl e \<Rightarrow> (Some e, results1, evs @ evs1)
                 | Inr s \<Rightarrow>
                     scan_tools loads env repo_dir repo_url rest
                       (results1\<lparr>status := AList.update tool s (status results1)\<rparr>)
                       (evs @ evs1)))"

text \<open>The message stored by the handler \<^verbatim>\<open>except Exception as e\<close> of \<open>clone_and_scan\<close>.\<close>

definition scan_error :: "string \<Rightarrow> exn \<Rightarrow> string" where
  "scan_error repo_url e = ''Error scanning '' @ repo_url @ '': '' @ exn_str e"

text \<open>Leaving the \<^verbatim>\<open>with tempfile.TemporaryDirectory()\<close> block: the directory is removed on
  every path. An exception raised by the removal replaces the one in flight, and either
  of them reaches the handler, which stores it in \<^verbatim>\<open>results['error']\<close>.\<close>

definition leave_tempdir ::
  "task_env \<Rightarrow> string \<Rightarrow> string \<Rightarrow> exn option \<Rightarrow> scan_result \<Rightarrow> scan_result" where
  "leave_tempdir env temp_dir repo_url raised results =
     (case cleanup env temp_dir of
        Some e \<Rightarrow> results\<lparr>error := Some (scan_error repo_url e)\<rparr>
      | None \<Rightarrow>
          (case raised of
             Some e \<Rightarrow> results\<lparr>error := Some (scan_error repo_url e)\<rparr>
           | None \<Rightarrow> results))"

text \<open>The early return of \<open>clone_and_scan\<close> when \<^verbatim>\<open>not repo_dir\<close> holds.\<close>

definition clone_failed :: "task_env \<Rightarrow> string \<Rightarrow> string \<Rightarrow> scan_result \<Rightarrow> scan_result" where
  "clone_failed env temp_dir repo_url results =
     leave_tempdir env temp_dir repo_url None
       (results\<lparr>error := Some (''Clone failed: '' @ repo_url)\<rparr>)"

definition clone_and_scan :: "json_loads \<Rightarrow> task_env \<Rightarrow> string \<Rightarrow> event list \<times> scan_result" where
  "clone_and_scan loads env repo_url =
     (let results = \<lparr>findings = [], status = [], error = None\<rparr>
      in case mkdtemp env of
           Inl e \<Rightarrow> ([], results\<lparr>error := Some (scan_error repo_url e)\<rparr>)
         | Inr temp_dir \<Rightarrow>
             (case clone_repo env repo_url temp_dir of
                (evs, None) \<Rightarrow> (evs, clone_failed env temp_dir repo_url results)
              | (evs, Some repo_dir) \<Rightarrow>
                  if repo_dir = [] then (evs, clone_failed env temp_dir repo_url results)
                  else
                    (case scan_tools loads env repo_dir repo_url TOOLS results evs of
                       (raised, results1, evs1) \<Rightarrow>
                         (evs1, leave_tempdir env temp_dir repo_url raised results1))))"

section \<open>The orchestrator\<close>

text \<open>\<open>check_tools_installed\<close>: what it prints, and the exit code when it calls
  \<^verbatim>\<open>exit(1)\<close>. \<open>which\<close> is \<^verbatim>\<open>shutil.which\<close>: the path found, or \<open>None\<close>.\<close>

definition missing_tools :: "(string \<Rightarrow> string option) \<Rightarrow> string list" where
  "missing_tools which = [tool. tool \<leftarrow> map fst TOOLS, \<not> path_truthy (which tool)]"

definition check_tools_installed :: "(string \<Rightarrow> string option) \<Rightarrow> event list \<times> nat option" where
  "check_tools_installed which =
     (if missing_tools which \<noteq> []
      then ([Print (Fore_RED @ ''Missing tools: '' @ join '', '' (missing_tools which))], Some 1)
      else ([], None))"

text \<open>
  The world \<open>main\<close> runs in:
  \<^item> \<open>which\<close>: \<^verbatim>\<open>shutil.which\<close>;
  \<^item> \<open>read_text\<close>: the text of the file at a path as the text-mode file object yields it
    (every line ending translated to a newline), or the error \<^verbatim>\<open>open\<close> raises;
  \<^item> \<open>worker_env\<close>: the world seen by the task submitted as the \<open>i\<close>-th future;
  \<^item> \<open>as_completed\<close>: the order in which the submitted futures complete.
\<close>

record main_env =
  which :: "string \<Rightarrow> string option"
  read_text :: "string \<Rightarrow> exn + string"
  worker_env :: "nat \<Rightarrow> task_env"
  as_completed :: "nat list \<Rightarrow> nat list"

text \<open>A value of the dict \<^verbatim>\<open>global_report\<close>: the \<^verbatim>\<open>results\<close> of a task, or the dict
  \<^verbatim>\<open>{'error': str(e)}\<close>.\<close>

datatype report_entry = Result scan_result | ErrorOnly string

datatype main_outcome =
    SystemExit nat
  | Uncaught exn
  | Reported "(string \<times> report_entry) list"

record main_run =
  printed :: "event list"
  future_to_url :: "(nat \<times> string) list"
  outcome :: main_outcome

text \<open>\<^verbatim>\<open>repos = [line.strip() for line in f if line.strip()]\<close>.\<close>

definition read_repos :: "string \<Rightarrow> string list" where
  "read_repos text = [strip line. line \<leftarrow> file_lines text, strip line \<noteq> []]"

text \<open>\<^verbatim>\<open>future.result()\<close>: the value the task returned, or the exception that escaped it.
  Every statement of \<open>clone_and_scan\<close> that can raise is inside its
  \<^verbatim>\<open>try ... except Exception\<close>, so the task returns.\<close>

definition future_result :: "json_loads \<Rightarrow> task_env \<Rightarrow> string \<Rightarrow> exn + scan_result" where
  "future_result loads env repo_url = Inr (snd (clone_and_scan loads env repo_url))"

text \<open>One turn of the loop over \<^verbatim>\<open>as_completed(future_to_url)\<close>.\<close>

definition collect ::
  "json_loads \<Rightarrow> main_env \<Rightarrow> (nat \<times> string) list \<Rightarrow> nat
     \<Rightarrow> (string \<times> report_entry) list \<Rightarrow> (string \<times> report_entry) list" where
  "collect loads env f2u future global_report =
     (case map_of f2u future of
        None \<Rightarrow> global_report
      | Some repo_url \<Rightarrow>
          (case future_result loads (worker_env env future) repo_url of
             Inr result \<Rightarrow> AList.update repo_url (Result result) global_report
           | Inl e \<Rightarrow> AList.update repo_url (ErrorOnly (exn_str e)) global_report))"

text \<open>The body of \<open>main\<close> after the tool check, up to the \<^verbatim>\<open>global_report\<close> that it hands
  to \<^verbatim>\<open>format_report\<close>. An error raised by \<^verbatim>\<open>open\<close> is not caught.\<close>

definition run_scans :: "json_loads \<Rightarrow> main_env \<Rightarrow> string \<Rightarrow> main_run" where
  "run_scans loads env input_file =
     (case read_text env input_file of
        Inl e \<Rightarrow> \<lparr>printed = [], future_to_url = [], outcome = Uncaught e\<rparr>
      | Inr text \<Rightarrow>
          (let repos = read_repos text;
               f2u = zip [0..<length repos] repos;
               global_report = fold (collect loads env f2u) (as_completed env (map fst f2u)) []
           in \<lparr>printed = [], future_to_url = f2u, outcome = Reported global_report\<rparr>))"

definition main :: "json_loads \<Rightarrow> main_env \<Rightarrow> string \<Rightarrow> main_run" where
  "main loads env input_file =
     (case check_tools_installed (which env) of
        (evs, Some code) \<Rightarrow> \<lparr>printed = evs, future_to_url = [], outcome = SystemExit code\<rparr>
      | (evs, None) \<Rightarrow>
          (let run = run_scans loads env input_file
           in run\<lparr>printed := evs @ printed run\<rparr>))"

section \<open>The directory name as the specification words it\<close>

text \<open>The specification's wording of the clone directory: the last path segment of the
  URL, with a \<^verbatim>\<open>.git\<close> suffix stripped. It is stated here to be compared with
  \<open>repo_name_of\<close>, which is what the code computes.\<close>

definition spec_repo_name :: "string \<Rightarrow> string" where
  "spec_repo_name repo_url =
     (let segment = last (split_on CHR ''/'' repo_url)
      in if 4 \<le> length segment \<and> drop (length segment - 4) segment = ''.git''
         then take (length segment - 4) segment
         else segment)"

section \<open>Sample worlds\<close>

text \<open>Concrete worlds on which the model is run: a decoder that knows a few JSON texts, a
  task world with fixed answers for the clone and for each of the two tools, and a main
  world over a fixed input file.\<close>

definition json_one_finding :: string where
  \<open>json_one_finding = ''{"Findings": [{"RuleID": "X"}]}''\<close>

definition json_no_finding :: string where
  \<open>json_no_finding = ''{"Findings": []}''\<close>

definition sample_loads :: json_loads where
  "sample_loads line =
     (if strip line = json_one_finding
        then Inr (PDict [(''Findings'', PList [PDict [(''RuleID'', PStr ''X'')]])])
      else if strip line = json_no_finding then Inr (PDict [(''Findings'', PList [])])
      else if strip line = ''{}'' then Inr (PDict [])
      else if strip line = ''[]'' then Inr (PList [])
      else if strip line = ''7'' then Inr (PInt 7)
      else Inl (Exn JSONDecodeError ''Expecting value: line 1 column 1 (char 0)''))"

text \<open>A report whose \<^verbatim>\<open>Findings\<close> is a number, and a decoder that knows it beside the texts
  of \<open>sample_loads\<close>.\<close>

definition json_number_finding :: string where
  \<open>json_number_finding = ''{"Findings": 7}''\<close>

definition sample_loads_numeric :: json_loads where
  "sample_loads_numeric line =
     (if strip line = json_number_finding then Inr (PDict [(''Findings'', PInt 7)])
      else sample_loads line)"

definition sample_task_env :: "exn option \<Rightarrow> exn + string \<Rightarrow> exn + string \<Rightarrow> task_env" where
  "sample_task_env clone_answer trufflehog_answer gitleaks_answer =
     \<lparr>mkdtemp = Inr ''/tmp/tmpk3'',
      cleanup = (\<lambda>temp_dir. None),
      clone_from = (\<lambda>repo_url repo_dir. clone_answer),
      subprocess_run = (\<lambda>command t. if take 10 command = ''trufflehog'' then trufflehog_answer
                                       else gitleaks_answer)\<rparr>"

definition sample_main_env ::
  "(string \<Rightarrow> string option) \<Rightarrow> string \<Rightarrow> (nat \<Rightarrow> task_env) \<Rightarrow> (nat list \<Rightarrow> nat list) \<Rightarrow> main_env" where
  "sample_main_env w text workers order =
     \<lparr>which = w, read_text = (\<lambda>path. Inr text), worker_env = workers, as_completed = order\<rparr>"

section \<open>Basic facts about the helpers\<close>

lemma split_on_not_Nil: "split_on sep s \<noteq> []"
  by (induction s) (auto split: list.splits)

lemma timed_out_not_count: "''Timed out'' \<noteq> str_nat n @ '' findings''"
proof
  assume "''Timed out'' = str_nat n @ '' findings''"
  then have "last ''Timed out'' = last (str_nat n @ '' findings'')" by simp
  then show False by simp
qed

lemma status_leave_tempdir:
  "status (leave_tempdir env temp_dir repo_url raised results) = status results"
  by (simp add: leave_tempdir_def split: option.splits)

lemma findings_leave_tempdir:
  "findings (leave_tempdir env temp_dir repo_url raised results) = findings results"
  by (simp add: leave_tempdir_def split: option.splits)

section \<open>The loop over the tools\<close>

text \<open>A tool that the loop does not visit keeps its entries.\<close>

lemma scan_tools_keeps:
  "scan_tools loads env repo_dir repo_url ts results evs = (raised, res, evs') \<Longrightarrow>
   tool \<notin> fst ` set ts \<Longrightarrow>
   map_of (status res) tool = map_of (status results) tool \<and>
   map_of (findings res) tool = map_of (findings results) tool"
proof (induction ts arbitrary: results evs)
  case Nil
  then show ?case by simp
next
  case (Cons tc rest)
  obtain t c where tc: "tc = (t, c)" by (cases tc)
  from Cons.prems(2) tc have ne: "t \<noteq> tool" and notin: "tool \<notin> fst ` set rest" by auto
  show ?case
  proof (cases "run_tool loads env t (format_command (cfg_command c) repo_dir repo_url) repo_dir repo_url")
    case (Pair evs1 r)
    show ?thesis
    proof (cases r)
      case (Inl e)
      with Cons.prems(1) tc Pair show ?thesis by simp
    next
      case (Inr v)
      show ?thesis
      proof (cases "status_string v")
        case (Inl e)
        with Cons.prems(1) tc Pair Inr ne show ?thesis by (auto simp: update_conv')
      next
        case (Inr s)
        with Cons.prems(1) tc Pair \<open>r = Inr v\<close>
        have "scan_tools loads env repo_dir repo_url rest
                (results\<lparr>findings := AList.update t v (findings results),
                          status := AList.update t s (status results)\<rparr>) (evs @ evs1) = (raised, res, evs')"
          by simp
        from Cons.IH[OF this notin] ne show ?thesis by (simp add: update_conv')
      qed
    qed
  qed
qed

text \<open>Every status that the loop records comes from the value that \<open>run_tool\<close> returned
  for that tool, which is the value stored as its findings.\<close>

lemma scan_tools_status:
  "scan_tools loads env repo_dir repo_url ts results evs = (raised, res, evs') \<Longrightarrow>
   distinct (map fst ts) \<Longrightarrow>
   map_of (status results) tool = None \<Longrightarrow>
   map_of (status res) tool = Some s \<Longrightarrow>
   \<exists>config v evs1.
      map_of ts tool = Some config \<and>
      run_tool loads env tool (format_command (cfg_command config) repo_dir repo_url) repo_dir repo_url
        = (evs1, Inr v) \<and>
      map_of (findings res) tool = Some v \<and>
      status_string v = Inr s"
proof (induction ts arbitrary: results evs)
  case Nil
  then show ?case by simp
next
  case (Cons tc rest)
  obtain t c where tc: "tc = (t, c)" by (cases tc)
  from Cons.prems(2) tc have notin: "t \<notin> fst ` set rest" and dist: "distinct (map fst rest)" by auto
  show ?case
  proof (cases "run_tool loads env t (format_command (cfg_command c) repo_dir repo_url) repo_dir repo_url")
    case (Pair evs1 r)
    show ?thesis
    proof (cases r)
      case (Inl e)
      with Cons.prems tc Pair show ?thesis by simp
    next
      case (Inr v)
      show ?thesis
      proof (cases "status_string v")
        case (Inl e)
        with Cons.prems tc Pair Inr show ?thesis by auto
      next
        case (Inr s')
        let ?r2 = "results\<lparr>findings := AList.update t v (findings results),
                          status := AList.update t s' (status results)\<rparr>"
        from Cons.prems(1) tc Pair \<open>r = Inr v\<close> Inr
        have rec: "scan_tools loads env repo_dir repo_url rest ?r2 (evs @ evs1) = (raised, res, evs')"
          by simp
        show ?thesis
        proof (cases "tool = t")
          case True
          from scan_tools_keeps[OF rec notin]
          have "map_of (status res) t = Some s'" "map_of (findings res) t = Some v"
            by (simp_all add: update_conv')
          with True Cons.prems(4) tc Pair \<open>r = Inr v\<close> Inr show ?thesis by auto
        next
          case False
          then have "map_of (status ?r2) tool = None"
            using Cons.prems(3) by (simp add: update_conv')
          from Cons.IH[OF rec dist this Cons.prems(4)] False tc show ?thesis by auto
        qed
      qed
    qed
  qed
qed

section \<open>Status strings\<close>

text \<open>Every status that \<open>clone_and_scan\<close> records is derived, by the three-way rule, from the
  value that \<open>run_tool\<close> returned for the tool, which is the value stored as its findings.\<close>

lemma recorded_status_is_rule:
  assumes st: "map_of (status (snd (clone_and_scan loads env repo_url))) tool = Some s"
  shows "\<exists>config temp_dir repo_dir command evs1 v.
           map_of TOOLS tool = Some config \<and>
           mkdtemp env = Inr temp_dir \<and>
           repo_dir = path_join temp_dir (repo_name_of repo_url) \<and>
           command = format_command (cfg_command config) repo_dir repo_url \<and>
           run_tool loads env tool command repo_dir repo_url = (evs1, Inr v) \<and>
           map_of (findings (snd (clone_and_scan loads env repo_url))) tool = Some v \<and>
           (if v = PStr ''timeout'' then s = ''Timed out''
            else if truthy v then (\<exists>n. py_len v = Inr n \<and> s = str_nat n @ '' findings'')
            else s = ''Clean'') \<and>
           (\<forall>e. subprocess_run env command (cfg_timeout config) = Inl e \<and>
                exn_class_of e = TimeoutExpired
                \<longrightarrow> v = PStr ''timeout'' \<and> s = ''Timed out'' \<and> s \<noteq> ''Clean''
                    \<and> (\<forall>n. s \<noteq> str_nat n @ '' findings''))"
proof -
  have dist: "distinct (map fst TOOLS)" by (simp add: TOOLS_def)
  let ?r0 = "\<lparr>findings = [], status = [], error = None\<rparr>"
  let ?res = "snd (clone_and_scan loads env repo_url)"
  from st obtain temp_dir where tmp: "mkdtemp env = Inr temp_dir"
    by (cases "mkdtemp env") (auto simp: clone_and_scan_def)
  let ?dir = "path_join temp_dir (repo_name_of repo_url)"
  obtain evs0 rd where cr: "clone_repo env repo_url temp_dir = (evs0, rd)"
    by (cases "clone_repo env repo_url temp_dir")
  from st tmp cr have rd: "rd = Some ?dir" and ne: "?dir \<noteq> []"
    by (auto simp: clone_and_scan_def clone_failed_def status_leave_tempdir clone_repo_def Let_def
             split: option.splits if_splits)
  obtain raised res1 evs1 where sc:
    "scan_tools loads env ?dir repo_url TOOLS ?r0 evs0 = (raised, res1, evs1)"
    by (cases "scan_tools loads env ?dir repo_url TOOLS ?r0 evs0") auto
  from tmp cr rd ne sc have res: "?res = leave_tempdir env temp_dir repo_url raised res1"
    by (auto simp: clone_and_scan_def)
  then have st1: "map_of (status res1) tool = Some s" and f1: "findings ?res = findings res1"
    using st by (simp_all add: status_leave_tempdir findings_leave_tempdir)
  from scan_tools_status[OF sc dist _ st1]
  obtain config v evs2 where
    cfg: "map_of TOOLS tool = Some config" and
    rt: "run_tool loads env tool (format_command (cfg_command config) ?dir repo_url) ?dir repo_url
           = (evs2, Inr v)" and
    fv: "map_of (findings res1) tool = Some v" and
    ss: "status_string v = Inr s"
    by auto
  let ?cmd = "format_command (cfg_command config) ?dir repo_url"
  from ss have rule: "(if v = PStr ''timeout'' then s = ''Timed out''
            else if truthy v then (\<exists>n. py_len v = Inr n \<and> s = str_nat n @ '' findings'')
            else s = ''Clean'')"
    by (auto simp: status_string_def split: if_splits sum.splits)
  have tmo: "\<forall>e. subprocess_run env ?cmd (cfg_timeout config) = Inl e \<and>
                exn_class_of e = TimeoutExpired
                \<longrightarrow> v = PStr ''timeout'' \<and> s = ''Timed out'' \<and> s \<noteq> ''Clean''
                    \<and> (\<forall>n. s \<noteq> str_nat n @ '' findings'')"
  proof (intro allI impI)
    fix e
    assume a: "subprocess_run env ?cmd (cfg_timeout config) = Inl e \<and>
               exn_class_of e = TimeoutExpired"
    with rt cfg have v: "v = PStr ''timeout''" by (simp add: run_tool_def)
    with ss have "s = ''Timed out''" by (simp add: status_string_def)
    with v show "v = PStr ''timeout'' \<and> s = ''Timed out'' \<and> s \<noteq> ''Clean''
                    \<and> (\<forall>n. s \<noteq> str_nat n @ '' findings'')"
      using timed_out_not_count by simp
  qed
  from cfg tmp rt fv f1 rule tmo show ?thesis by auto
qed

text \<open>Every value that the loop stores as findings is the value \<open>run_tool\<close> returned for
  the tool, and the status computed from it, when there is one, is recorded.\<close>

lemma scan_tools_finding:
  "scan_tools loads env repo_dir repo_url ts results evs = (raised, res, evs') \<Longrightarrow>
   distinct (map fst ts) \<Longrightarrow>
   map_of (findings results) tool = None \<Longrightarrow>
   map_of (findings res) tool = Some v \<Longrightarrow>
   \<exists>config evs1.
      map_of ts tool = Some config \<and>
      run_tool loads env tool (format_command (cfg_command config) repo_dir repo_url) repo_dir repo_url
        = (evs1, Inr v) \<and>
      (\<forall>s. status_string v = Inr s \<longrightarrow> map_of (status res) tool = Some s)"
proof (induction ts arbitrary: results evs)
  case Nil
  then show ?case by simp
next
  case (Cons tc rest)
  obtain t c where tc: "tc = (t, c)" by (cases tc)
  from Cons.prems(2) tc have notin: "t \<notin> fst ` set rest" and dist: "distinct (map fst rest)" by auto
  show ?case
  proof (cases "run_tool loads env t (format_command (cfg_command c) repo_dir repo_url) repo_dir repo_url")
    case (Pair evs1 r)
    show ?thesis
    proof (cases r)
      case (Inl e)
      with Cons.prems tc Pair show ?thesis by simp
    next
      case (Inr v0)
      show ?thesis
      proof (cases "status_string v0")
        case (Inl e)
        with Cons.prems(1) tc Pair Inr
        have res: "res = results\<lparr>findings := AList.update t v0 (findings results)\<rparr>" by simp
        show ?thesis
        proof (cases "tool = t")
          case True
          with res Cons.prems(4) have "v = v0" by (simp add: update_conv')
          with True tc Pair Inr Inl show ?thesis by simp
        next
          case False
          with res Cons.prems(3,4) show ?thesis by (simp add: update_conv')
        qed
      next
        case (Inr s0)
        let ?r2 = "results\<lparr>findings := AList.update t v0 (findings results),
                          status := AList.update t s0 (status results)\<rparr>"
        from Cons.prems(1) tc Pair \<open>r = Inr v0\<close> Inr
        have rec: "scan_tools loads env repo_dir repo_url rest ?r2 (evs @ evs1) = (raised, res, evs')"
          by simp
        show ?thesis
        proof (cases "tool = t")
          case True
          from scan_tools_keeps[OF rec notin]
          have "map_of (status res) t = Some s0" "map_of (findings res) t = Some v0"
            by (simp_all add: update_conv')
          with True Cons.prems(4) tc Pair \<open>r = Inr v0\<close> Inr show ?thesis by simp
        next
          case False
          then have "map_of (findings ?r2) tool = None"
            using Cons.prems(3) by (simp add: update_conv')
          from Cons.IH[OF rec dist this Cons.prems(4)] False tc show ?thesis by simp
        qed
      qed
    qed
  qed
qed

lemma stored_value_run:
  assumes fnd: "map_of (findings (snd (clone_and_scan loads env repo_url))) tool = Some v"
  shows "\<exists>config temp_dir repo_dir command evs1.
           map_of TOOLS tool = Some config \<and>
           mkdtemp env = Inr temp_dir \<and>
           repo_dir = path_join temp_dir (repo_name_of repo_url) \<and>
           command = format_command (cfg_command config) repo_dir repo_url \<and>
           run_tool loads env tool command repo_dir repo_url = (evs1, Inr v) \<and>
           (\<forall>s. status_string v = Inr s \<longrightarrow>
                map_of (status (snd (clone_and_scan loads env repo_url))) tool = Some s)"
proof -
  have dist: "distinct (map fst TOOLS)" by (simp add: TOOLS_def)
  let ?r0 = "\<lparr>findings = [], status = [], error = None\<rparr>"
  let ?res = "snd (clone_and_scan loads env repo_url)"
  from fnd obtain temp_dir where tmp: "mkdtemp env = Inr temp_dir"
    by (cases "mkdtemp env") (auto simp: clone_and_scan_def)
  let ?dir = "path_join temp_dir (repo_name_of repo_url)"
  obtain evs0 rd where cr: "clone_repo env repo_url temp_dir = (evs0, rd)"
    by (cases "clone_repo env repo_url temp_dir")
  from fnd tmp cr have rd: "rd = Some ?dir" and ne: "?dir \<noteq> []"
    by (auto simp: clone_and_scan_def clone_failed_def findings_leave_tempdir clone_repo_def Let_def
             split: option.splits if_splits)
  obtain raised res1 evs1 where sc:
    "scan_tools loads env ?dir repo_url TOOLS ?r0 evs0 = (raised, res1, evs1)"
    by (cases "scan_tools loads env ?dir repo_url TOOLS ?r0 evs0") auto
  from tmp cr rd ne sc have res: "?res = leave_tempdir env temp_dir repo_url raised res1"
    by (auto simp: clone_and_scan_def)
  then have f1: "map_of (findings res1) tool = Some v" and s1: "status ?res = status res1"
    using fnd by (simp_all add: status_leave_tempdir findings_leave_tempdir)
  from scan_tools_finding[OF sc dist _ f1]
  obtain config evs2 where
    cfg: "map_of TOOLS tool = Some config" and
    rt: "run_tool loads env tool (format_command (cfg_command config) ?dir repo_url) ?dir repo_url
           = (evs2, Inr v)" and
    st: "\<forall>s. status_string v = Inr s \<longrightarrow> map_of (status res1) tool = Some s"
    by auto
  from cfg tmp rt st s1 show ?thesis by auto
qed

lemma stored_value_timed_out:
  assumes "map_of (findings (snd (clone_and_scan loads env repo_url))) tool = Some v"
      and "v = PStr ''timeout''"
  shows "map_of (status (snd (clone_and_scan loads env repo_url))) tool = Some ''Timed out''"
proof -
  from assms(2) have "status_string v = Inr ''Timed out''" by (simp add: status_string_def)
  with stored_value_run[OF assms(1)] show ?thesis by auto
qed

lemma stored_value_count:
  assumes "map_of (findings (snd (clone_and_scan loads env repo_url))) tool = Some v"
      and "v \<noteq> PStr ''timeout'' \<and> truthy v \<and> py_len v = Inr n"
  shows "map_of (status (snd (clone_and_scan loads env repo_url))) tool
           = Some (str_nat n @ '' findings'')"
proof -
  from assms(2) have "status_string v = Inr (str_nat n @ '' findings'')"
    by (simp add: status_string_def)
  with stored_value_run[OF assms(1)] show ?thesis by auto
qed

lemma stored_value_clean:
  assumes "map_of (findings (snd (clone_and_scan loads env repo_url))) tool = Some v"
      and "\<not> truthy v"
  shows "map_of (status (snd (clone_and_scan loads env repo_url))) tool = Some ''Clean''"
proof -
  from assms(2) have "v \<noteq> PStr ''timeout''" by auto
  with assms(2) have "status_string v = Inr ''Clean''" by (simp add: status_string_def)
  with stored_value_run[OF assms(1)] show ?thesis by auto
qed

lemma stored_value_returned:
  assumes "map_of (findings (snd (clone_and_scan loads env repo_url))) tool = Some v"
  shows "\<exists>config temp_dir repo_dir command evs1.
           map_of TOOLS tool = Some config \<and>
           mkdtemp env = Inr temp_dir \<and>
           repo_dir = path_join temp_dir (repo_name_of repo_url) \<and>
           command = format_command (cfg_command config) repo_dir repo_url \<and>
           run_tool loads env tool command repo_dir repo_url = (evs1, Inr v)"
  using stored_value_run[OF assms] by auto

text \<open>
  Claim C1, as the code has it. For every repository and tool for which \<open>clone_and_scan\<close>
  stored the value \<open>v\<close> that \<open>run_tool\<close> returned, the status recorded for the tool follows
  the three-way rule: \<open>Timed out\<close> when \<open>v\<close> is the timeout sentinel; \<open>n findings\<close> when \<open>v\<close> is
  another non-empty value that has a length \<open>n\<close>, as every list, string and object has;
  \<open>Clean\<close> when \<open>v\<close> is \<^verbatim>\<open>None\<close> or empty. Conversely every recorded status arises from the
  stored value by this rule, and a tool whose subprocess timed out has the status
  \<open>Timed out\<close>, which is neither \<open>Clean\<close> nor a finding count.
\<close>

theorem status_three_way_rule:
  "(map_of (findings (snd (clone_and_scan loads env repo_url))) tool = Some v \<longrightarrow>
      (\<exists>config temp_dir repo_dir command evs1.
          map_of TOOLS tool = Some config \<and>
          mkdtemp env = Inr temp_dir \<and>
          repo_dir = path_join temp_dir (repo_name_of repo_url) \<and>
          command = format_command (cfg_command config) repo_dir repo_url \<and>
          run_tool loads env tool command repo_dir repo_url = (evs1, Inr v)) \<and>
      (v = PStr ''timeout'' \<longrightarrow>
         map_of (status (snd (clone_and_scan loads env repo_url))) tool = Some ''Timed out'') \<and>
      (v \<noteq> PStr ''timeout'' \<and> truthy v \<and> py_len v = Inr n \<longrightarrow>
         map_of (status (snd (clone_and_scan loads env repo_url))) tool
           = Some (str_nat n @ '' findings'')) \<and>
      (\<not> truthy v \<longrightarrow>
         map_of (status (snd (clone_and_scan loads env repo_url))) tool = Some ''Clean'')) \<and>
   (map_of (status (snd (clone_and_scan loads env repo_url))) tool = Some s \<longrightarrow>
      (\<exists>config temp_dir repo_dir command evs1 w.
           map_of TOOLS tool = Some config \<and>
           mkdtemp env = Inr temp_dir \<and>
           repo_dir = path_join temp_dir (repo_name_of repo_url) \<and>
           command = format_command (cfg_command config) repo_dir repo_url \<and>
           run_tool loads env tool command repo_dir repo_url = (evs1, Inr w) \<and>
           map_of (findings (snd (clone_and_scan loads env repo_url))) tool = Some w \<and>
           (if w = PStr ''timeout'' then s = ''Timed out''
            else if truthy w then (\<exists>n. py_len w = Inr n \<and> s = str_nat n @ '' findings'')
            else s = ''Clean'') \<and>
           (\<forall>e. subprocess_run env command (cfg_timeout config) = Inl e \<and>
                exn_class_of e = TimeoutExpired
                \<longrightarrow> w = PStr ''timeout'' \<and> s = ''Timed out'' \<and> s \<noteq> ''Clean''
                    \<and> (\<forall>n. s \<noteq> str_nat n @ '' findings'')))) \<and>
   py_len (PList xs) = Inr (length xs) \<and>
   py_len (PStr txt) = Inr (length txt) \<and>
   py_len (PDict kvs) = Inr (length kvs)"
proof (intro conjI impI)
  assume f: "map_of (findings (snd (clone_and_scan loads env repo_url))) tool = Some v"
  show "\<exists>config temp_dir repo_dir command evs1.
          map_of TOOLS tool = Some config \<and>
          mkdtemp env = Inr temp_dir \<and>
          repo_dir = path_join temp_dir (repo_name_of repo_url) \<and>
          command = format_command (cfg_command config) repo_dir repo_url \<and>
          run_tool loads env tool command repo_dir repo_url = (evs1, Inr v)"
    by (rule stored_value_returned[OF f])
next
  assume f: "map_of (findings (snd (clone_and_scan loads env repo_url))) tool = Some v"
    and t: "v = PStr ''timeout''"
  show "map_of (status (snd (clone_and_scan loads env repo_url))) tool = Some ''Timed out''"
    by (rule stored_value_timed_out[OF f t])
next
  assume f: "map_of (findings (snd (clone_and_scan loads env repo_url))) tool = Some v"
    and c: "v \<noteq> PStr ''timeout'' \<and> truthy v \<and> py_len v = Inr n"
  show "map_of (status (snd (clone_and_scan loads env repo_url))) tool
           = Some (str_nat n @ '' findings'')"
    by (rule stored_value_count[OF f c])
next
  assume f: "map_of (findings (snd (clone_and_scan loads env repo_url))) tool = Some v"
    and e: "\<not> truthy v"
  show "map_of (status (snd (clone_and_scan loads env repo_url))) tool = Some ''Clean''"
    by (rule stored_value_clean[OF f e])
next
  assume st: "map_of (status (snd (clone_and_scan loads env repo_url))) tool = Some s"
  show "\<exists>config temp_dir repo_dir command evs1 w.
           map_of TOOLS tool = Some config \<and>
           mkdtemp env = Inr temp_dir \<and>
           repo_dir = path_join temp_dir (repo_name_of repo_url) \<and>
           command = format_command (cfg_command config) repo_dir repo_url \<and>
           run_tool loads env tool command repo_dir repo_url = (evs1, Inr w) \<and>
           map_of (findings (snd (clone_and_scan loads env repo_url))) tool = Some w \<and>
           (if w = PStr ''timeout'' then s = ''Timed out''
            else if truthy w then (\<exists>n. py_len w = Inr n \<and> s = str_nat n @ '' findings'')
            else s = ''Clean'') \<and>
           (\<forall>e. subprocess_run env command (cfg_timeout config) = Inl e \<and>
                exn_class_of e = TimeoutExpired
                \<longrightarrow> w = PStr ''timeout'' \<and> s = ''Timed out'' \<and> s \<noteq> ''Clean''
                    \<and> (\<forall>n. s \<noteq> str_nat n @ '' findings''))"
    by (rule recorded_status_is_rule[OF st])
next
  show "py_len (PList xs) = Inr (length xs)" by simp
next
  show "py_len (PStr txt) = Inr (length txt)" by simp
next
  show "py_len (PDict kvs) = Inr (length kvs)" by simp
qed

text \<open>The claim as the specification words it fails for a non-empty value that has no
  length: \<^verbatim>\<open>gitleaks\<close> reports the number 7 as its \<^verbatim>\<open>Findings\<close>; \<open>run_tool\<close> returns 7, which is
  stored as the findings of the tool, and no status is recorded for it.\<close>

theorem status_missing_without_length:
  "snd (run_tool sample_loads_numeric
          (sample_task_env None (Inr []) (Inr json_number_finding)) ''gitleaks''
          ''gitleaks detect --source /tmp/tmpk3/repo --no-git --exit-code 0 --report-format json''
          ''/tmp/tmpk3/repo'' ''https://github.com/u/repo.git'')
     = Inr (PInt 7) \<and>
   truthy (PInt 7) \<and>
   PInt 7 \<noteq> PStr ''timeout'' \<and>
   snd (clone_and_scan sample_loads_numeric
          (sample_task_env None (Inr []) (Inr json_number_finding))
          ''https://github.com/u/repo.git'')
     = \<lparr>findings = [(''trufflehog'', PNone), (''gitleaks'', PInt 7)],
        status = [(''trufflehog'', ''Clean'')],
        error = Some (''Error scanning https://github.com/u/repo.git: object of type ''
                      @ [CHR 0x27] @ ''int'' @ [CHR 0x27] @ '' has no len()'')\<rparr> \<and>
   map_of (status (snd (clone_and_scan sample_loads_numeric
          (sample_task_env None (Inr []) (Inr json_number_finding))
          ''https://github.com/u/repo.git''))) ''gitleaks'' = None"
proof (intro conjI)
  show "snd (run_tool sample_loads_numeric
          (sample_task_env None (Inr []) (Inr json_number_finding)) ''gitleaks''
          ''gitleaks detect --source /tmp/tmpk3/repo --no-git --exit-code 0 --report-format json''
          ''/tmp/tmpk3/repo'' ''https://github.com/u/repo.git'')
     = Inr (PInt 7)"
    by code_simp
  show "truthy (PInt 7)" by simp
  show "PInt 7 \<noteq> PStr ''timeout''" by simp
  show "snd (clone_and_scan sample_loads_numeric
          (sample_task_env None (Inr []) (Inr json_number_finding))
          ''https://github.com/u/repo.git'')
     = \<lparr>findings = [(''trufflehog'', PNone), (''gitleaks'', PInt 7)],
        status = [(''trufflehog'', ''Clean'')],
        error = Some (''Error scanning https://github.com/u/repo.git: object of type ''
                      @ [CHR 0x27] @ ''int'' @ [CHR 0x27] @ '' has no len()'')\<rparr>"
    by code_simp
  show "map_of (status (snd (clone_and_scan sample_loads_numeric
          (sample_task_env None (Inr []) (Inr json_number_finding))
          ''https://github.com/u/repo.git''))) ''gitleaks'' = None"
    by code_simp
qed

text \<open>The amended claim at work on the three branches: \<^verbatim>\<open>trufflehog\<close> exceeds its time limit
  and \<^verbatim>\<open>gitleaks\<close> reports one finding; on a second run \<^verbatim>\<open>trufflehog\<close> prints nothing.\<close>

theorem status_three_way_rule_witness:
  "map_of (findings (snd (clone_and_scan sample_loads
      (sample_task_env None (Inl (Exn TimeoutExpired ''timed out after 3600 seconds''))
         (Inr json_one_finding))
      ''https://github.com/u/repo.git''))) ''trufflehog'' = Some (PStr ''timeout'') \<and>
   map_of (status (snd (clone_and_scan sample_loads
      (sample_task_env None (Inl (Exn TimeoutExpired ''timed out after 3600 seconds''))
         (Inr json_one_finding))
      ''https://github.com/u/repo.git''))) ''trufflehog'' = Some ''Timed out'' \<and>
   subprocess_run
      (sample_task_env None (Inl (Exn TimeoutExpired ''timed out after 3600 seconds''))
         (Inr json_one_finding))
      ''trufflehog git --only-verified --json https://github.com/u/repo.git'' 3600
     = Inl (Exn TimeoutExpired ''timed out after 3600 seconds'') \<and>
   map_of (findings (snd (clone_and_scan sample_loads
      (sample_task_env None (Inl (Exn TimeoutExpired ''timed out after 3600 seconds''))
         (Inr json_one_finding))
      ''https://github.com/u/repo.git''))) ''gitleaks''
     = Some (PList [PDict [(''RuleID'', PStr ''X'')]]) \<and>
   py_len (PList [PDict [(''RuleID'', PStr ''X'')]]) = Inr 1 \<and>
   map_of (status (snd (clone_and_scan sample_loads
      (sample_task_env None (Inl (Exn TimeoutExpired ''timed out after 3600 seconds''))
         (Inr json_one_finding))
      ''https://github.com/u/repo.git''))) ''gitleaks'' = Some ''1 findings'' \<and>
   map_of (findings (snd (clone_and_scan sample_loads
      (sample_task_env None (Inr []) (Inr json_no_finding))
      ''https://github.com/u/repo.git''))) ''trufflehog'' = Some PNone \<and>
   map_of (status (snd (clone_and_scan sample_loads
      (sample_task_env None (Inr []) (Inr json_no_finding))
      ''https://github.com/u/repo.git''))) ''trufflehog'' = Some ''Clean''"
proof -
  let ?env = "sample_task_env None (Inl (Exn TimeoutExpired ''timed out after 3600 seconds''))
         (Inr json_one_finding)"
  let ?quiet = "sample_task_env None (Inr []) (Inr json_no_finding)"
  let ?url = "''https://github.com/u/repo.git''"
  let ?one = "PList [PDict [(''RuleID'', PStr ''X'')]]"
  have ft: "map_of (findings (snd (clone_and_scan sample_loads ?env ?url))) ''trufflehog''
              = Some (PStr ''timeout'')"
    by code_simp
  have fg: "map_of (findings (snd (clone_and_scan sample_loads ?env ?url))) ''gitleaks'' = Some ?one"
    by code_simp
  have fq: "map_of (findings (snd (clone_and_scan sample_loads ?quiet ?url))) ''trufflehog'' = Some PNone"
    by code_simp
  have sub: "subprocess_run ?env ''trufflehog git --only-verified --json https://github.com/u/repo.git'' 3600
     = Inl (Exn TimeoutExpired ''timed out after 3600 seconds'')"
    by (simp add: sample_task_env_def)
  have len: "py_len ?one = Inr 1" by simp
  have cnt: "?one \<noteq> PStr ''timeout'' \<and> truthy ?one \<and> py_len ?one = Inr 1" by simp
  have one: "str_nat 1 @ '' findings'' = ''1 findings''"
    by (simp add: str_nat.simps digit_char_def)
  have emp: "\<not> truthy PNone" by simp
  note timed = status_three_way_rule[where loads = sample_loads and env = ?env and repo_url = ?url
      and tool = "''trufflehog''" and v = "PStr ''timeout''" and s = "''Timed out''",
      THEN conjunct1, THEN mp, OF ft, THEN conjunct2, THEN conjunct1, THEN mp, OF refl]
  note counted = status_three_way_rule[where loads = sample_loads and env = ?env and repo_url = ?url
      and tool = "''gitleaks''" and v = ?one and n = 1,
      THEN conjunct1, THEN mp, OF fg, THEN conjunct2, THEN conjunct2, THEN conjunct1, THEN mp, OF cnt]
  note clean = status_three_way_rule[where loads = sample_loads and env = ?quiet and repo_url = ?url
      and tool = "''trufflehog''" and v = PNone,
      THEN conjunct1, THEN mp, OF fq, THEN conjunct2, THEN conjunct2, THEN conjunct2, THEN mp, OF emp]
  note recorded = status_three_way_rule[where loads = sample_loads and env = ?env and repo_url = ?url
      and tool = "''trufflehog''" and s = "''Timed out''",
      THEN conjunct2, THEN conjunct1, THEN mp, OF timed]
  from recorded obtain w where
    "map_of (findings (snd (clone_and_scan sample_loads ?env ?url))) ''trufflehog'' = Some w"
    by (elim exE conjE) (rule that, assumption)
  with ft have "w = PStr ''timeout''" by simp
  show ?thesis
    by (intro conjI ft timed sub fg len counted[unfolded one] fq clean)
qed

section \<open>The tool runner's results\<close>


lemma walk_keys_non_dict:
  "\<not> is_dict r \<Longrightarrow> keys \<noteq> [] \<Longrightarrow> \<exists>m. walk_keys keys r = Inl (Exn AttributeError m)"
  by (cases keys; cases r) auto

lemma decode_lines_fail:
  "\<forall>l \<in> set pre. strip l = [] \<or> (\<exists>v. loads l = Inr v) \<Longrightarrow>
   strip line \<noteq> [] \<Longrightarrow> loads line = Inl e \<Longrightarrow>
   decode_lines loads (pre @ line # post) acc = Inl (e, line)"
  by (induction pre arbitrary: acc) auto

lemma strip_Nil: "strip [] = []"
  by (simp add: strip_def)



text \<open>
  Claim C9. For a tool configured with a non-empty output-key path, when the first
  decoded record is not a JSON object, \<open>run_tool\<close> does not raise: the walk's
  \<^verbatim>\<open>AttributeError\<close> is caught and the empty list is returned, and the loop of
  \<open>clone_and_scan\<close> records the status \<open>Clean\<close> for the tool and goes on.
\<close>

theorem non_object_record_is_clean:
  assumes "map_of TOOLS tool_name = Some config"
      and "cfg_output_key config = Some k"
      and "k \<noteq> []"
      and "subprocess_run env (format_command (cfg_command config) repo_dir repo_url)
             (cfg_timeout config) = Inr stdout"
      and "decode_stdout loads stdout = Inr (r # records)"
      and "\<not> is_dict r"
  shows "extract_output (Some k) (r # records) = Inr (PList []) \<and>
         run_tool loads env tool_name (format_command (cfg_command config) repo_dir repo_url)
             repo_dir repo_url
           = ([Subprocess (format_command (cfg_command config) repo_dir repo_url)], Inr (PList [])) \<and>
         status_string (PList []) = Inr ''Clean'' \<and>
         scan_tools loads env repo_dir repo_url ((tool_name, config) # tools) results evs
           = scan_tools loads env repo_dir repo_url tools
               (results\<lparr>findings := AList.update tool_name (PList []) (findings results),
                         status := AList.update tool_name ''Clean'' (status results)\<rparr>)
               (evs @ [Subprocess (format_command (cfg_command config) repo_dir repo_url)])"
proof -
  have "split_on CHR ''.'' k \<noteq> []" by (rule split_on_not_Nil)
  from walk_keys_non_dict[OF assms(6) this]
  obtain m where "walk_keys (split_on CHR ''.'' k) r = Inl (Exn AttributeError m)" by blast
  with assms(3) have ex: "extract_output (Some k) (r # records) = Inr (PList [])"
    by (simp add: extract_output_def)
  with assms have rt: "run_tool loads env tool_name (format_command (cfg_command config) repo_dir repo_url)
             repo_dir repo_url
           = ([Subprocess (format_command (cfg_command config) repo_dir repo_url)], Inr (PList []))"
    by (simp add: run_tool_def)
  have st: "status_string (PList []) = Inr ''Clean''" by (simp add: status_string_def)
  from rt st ex show ?thesis by simp
qed

text \<open>The claim at work: \<^verbatim>\<open>gitleaks\<close> prints a top-level array.\<close>

theorem non_object_record_is_clean_witness:
  "decode_stdout sample_loads ''[]'' = Inr [PList []] \<and> \<not> is_dict (PList []) \<and>
   snd (run_tool sample_loads (sample_task_env None (Inr ''{}'') (Inr ''[]'')) ''gitleaks''
      ''gitleaks detect --source /tmp/tmpk3/repo --no-git --exit-code 0 --report-format json''
      ''/tmp/tmpk3/repo'' ''https://github.com/u/repo.git'') = Inr (PList []) \<and>
   status_string (PList []) = Inr ''Clean''"
proof -
  let ?cfg = "\<lparr>cfg_command = ''gitleaks detect --source {repo_dir} --no-git --exit-code 0 --report-format json'',
           cfg_timeout = 600, cfg_output_key = Some ''Findings''\<rparr>"
  let ?env = "sample_task_env None (Inr ''{}'') (Inr ''[]'')"
  have t: "map_of TOOLS ''gitleaks'' = Some ?cfg" by (simp add: TOOLS_def)
  have k: "cfg_output_key ?cfg = Some ''Findings''" by simp
  have c: "format_command (cfg_command ?cfg) ''/tmp/tmpk3/repo'' ''https://github.com/u/repo.git''
             = ''gitleaks detect --source /tmp/tmpk3/repo --no-git --exit-code 0 --report-format json''"
    by simp
  have p: "subprocess_run ?env
             (format_command (cfg_command ?cfg) ''/tmp/tmpk3/repo'' ''https://github.com/u/repo.git'')
             (cfg_timeout ?cfg) = Inr ''[]''"
    by (simp add: sample_task_env_def)
  have d: "decode_stdout sample_loads ''[]'' = Inr [PList []]"
    by (simp add: decode_stdout_def sample_loads_def json_one_finding_def json_no_finding_def
          strip_def py_isspace_def)
  have n: "\<not> is_dict (PList [])" by simp
  have ne: "''Findings'' \<noteq> []" by simp
  from non_object_record_is_clean[OF t k ne p d n] c d n show ?thesis by simp
qed

text \<open>
  Claim C5. When the standard output of a tool is not blank and \<^verbatim>\<open>json.loads\<close> raises
  \<^verbatim>\<open>JSONDecodeError\<close> on one of its non-blank lines (the lines before it being blank or
  decodable), \<open>run_tool\<close> returns \<^verbatim>\<open>None\<close>, which is not the timeout sentinel and has the
  status \<open>Clean\<close>, and it prints a diagnostic that holds the first 200 characters of the
  offending line.
\<close>

theorem decode_failure_is_logged:
  assumes "map_of TOOLS tool_name = Some config"
      and "subprocess_run env command (cfg_timeout config) = Inr stdout"
      and "split_on CHR 0x0A (strip stdout) = pre @ line # post"
      and "\<forall>l \<in> set pre. strip l = [] \<or> (\<exists>v. loads l = Inr v)"
      and "strip line \<noteq> []"
      and "loads line = Inl e"
      and "exn_class_of e = JSONDecodeError"
  shows "run_tool loads env tool_name command repo_dir repo_url
           = ([Subprocess command,
               Print (Fore_YELLOW @ tool_name @ '' JSON error: '' @ exn_str e
                      @ '' (line: '' @ take 200 line @ '')'')],
              Inr PNone) \<and>
         PNone \<noteq> PStr ''timeout'' \<and>
         status_string PNone = Inr ''Clean''"
proof -
  have "strip stdout \<noteq> []"
  proof
    assume "strip stdout = []"
    with assms(3) have "[[]] = pre @ line # post" by simp
    then have "line = []" by (cases pre) auto
    with assms(5) show False by (simp add: strip_Nil)
  qed
  moreover from decode_lines_fail[OF assms(4,5,6)] assms(3)
  have "decode_lines loads (split_on CHR 0x0A (strip stdout)) [] = Inl (e, line)" by simp
  ultimately have "decode_stdout loads stdout = Inl (e, line)"
    by (simp add: decode_stdout_def)
  with assms(1,2,7) show ?thesis
    by (simp add: run_tool_def status_string_def)
qed

text \<open>The claim at work: \<^verbatim>\<open>trufflehog\<close> prints one decodable line and then a line that is
  not JSON.\<close>

theorem decode_failure_is_logged_witness:
  "split_on CHR 0x0A (strip (''{}'' @ [CHR 0x0A] @ ''panic: boom'' @ [CHR 0x0A]))
     = [''{}''] @ ''panic: boom'' # [] \<and>
   sample_loads ''panic: boom'' = Inl (Exn JSONDecodeError ''Expecting value: line 1 column 1 (char 0)'') \<and>
   run_tool sample_loads
      (sample_task_env None (Inr (''{}'' @ [CHR 0x0A] @ ''panic: boom'' @ [CHR 0x0A])) (Inr ''{}''))
      ''trufflehog'' ''trufflehog git'' ''/tmp/tmpk3/repo'' ''https://github.com/u/repo.git''
     = ([Subprocess ''trufflehog git'',
         Print (Fore_YELLOW @ ''trufflehog JSON error: Expecting value: line 1 column 1 (char 0) (line: panic: boom)'')],
        Inr PNone)"
proof -
  let ?cfg = "\<lparr>cfg_command = ''trufflehog git --only-verified --json {repo_url}'',
         cfg_timeout = 3600, cfg_output_key = None\<rparr>"
  let ?out = "''{}'' @ [CHR 0x0A] @ ''panic: boom'' @ [CHR 0x0A]"
  let ?env = "sample_task_env None (Inr ?out) (Inr ''{}'')"
  let ?e = "Exn JSONDecodeError ''Expecting value: line 1 column 1 (char 0)''"
  have t: "map_of TOOLS ''trufflehog'' = Some ?cfg" by (simp add: TOOLS_def)
  have p: "subprocess_run ?env ''trufflehog git'' (cfg_timeout ?cfg) = Inr ?out"
    by (simp add: sample_task_env_def)
  have s: "split_on CHR 0x0A (strip ?out) = [''{}''] @ ''panic: boom'' # []"
    by (simp add: strip_def py_isspace_def)
  have a: "\<forall>l \<in> set [''{}'']. strip l = [] \<or> (\<exists>v. sample_loads l = Inr v)"
    by (simp add: sample_loads_def strip_def py_isspace_def json_one_finding_def json_no_finding_def)
  have n: "strip ''panic: boom'' \<noteq> []" by (simp add: strip_def py_isspace_def)
  have l: "sample_loads ''panic: boom'' = Inl ?e"
    by (simp add: sample_loads_def strip_def py_isspace_def json_one_finding_def json_no_finding_def)
  have c: "exn_class_of ?e = JSONDecodeError" by simp
  from decode_failure_is_logged[OF t p s a n l c] s l show ?thesis by simp
qed

section \<open>The clone directory\<close>

text \<open>
  Claim C8. The claim says that only a trailing \<^verbatim>\<open>.git\<close> is stripped from the last path
  segment. \<open>clone_repo\<close> calls \<^verbatim>\<open>replace(".git", "")\<close>, which removes every occurrence: for
  the URL below the code names the directory \<^verbatim>\<open>myhub.io\<close>, where the claim requires
  \<^verbatim>\<open>my.github.io\<close>.
\<close>

theorem clone_dir_loses_inner_git:
  "repo_name_of ''https://github.com/u/my.github.io'' = ''myhub.io'' \<and>
   spec_repo_name ''https://github.com/u/my.github.io'' = ''my.github.io'' \<and>
   snd (clone_repo (sample_task_env None (Inr ''{}'') (Inr ''{}''))
          ''https://github.com/u/my.github.io'' ''/tmp/tmpk3'')
     = Some ''/tmp/tmpk3/myhub.io'' \<and>
   repo_name_of ''https://github.com/u/repo.git'' = ''repo'' \<and>
   spec_repo_name ''https://github.com/u/repo.git'' = ''repo''"
  by (simp add: repo_name_of_def spec_repo_name_def clone_repo_def sample_task_env_def
        path_join_def Let_def)

section \<open>The tool check at startup\<close>

lemma join_names_member:
  "t \<in> set ps \<Longrightarrow> \<exists>pre post. join sep ps = pre @ t @ post"
proof (induction sep ps rule: join.induct)
  case (1 sep)
  then show ?case by simp
next
  case (2 sep p)
  then have "join sep [p] = [] @ t @ []" by simp
  then show ?case by blast
next
  case (3 sep p q ps)
  show ?case
  proof (cases "t = p")
    case True
    then have "join sep (p # q # ps) = [] @ t @ (sep @ join sep (q # ps))" by simp
    then show ?thesis by blast
  next
    case False
    with 3 obtain pre post where "join sep (q # ps) = pre @ t @ post" by auto
    then have "join sep (p # q # ps) = (p @ sep @ pre) @ t @ post" by simp
    then show ?thesis by blast
  qed
qed

text \<open>
  Claim C6. When both tools of \<open>TOOLS\<close> are found on the path, \<open>check_tools_installed\<close>
  prints nothing and does not exit, and \<open>main\<close> is the scan of the input file. When one of
  them is not found, \<open>main\<close> prints one diagnostic, in which the name of every missing tool
  occurs, exits with code 1, and has submitted no repository.
\<close>

theorem missing_tools_abort:
  "(if path_truthy (which env ''trufflehog'') \<and> path_truthy (which env ''gitleaks'')
    then check_tools_installed (which env) = ([], None) \<and>
         main loads env input_file = run_scans loads env input_file
    else printed (main loads env input_file)
           = [Print (Fore_RED @ ''Missing tools: '' @ join '', '' (missing_tools (which env)))] \<and>
         (\<forall>t \<in> set (map fst TOOLS). \<not> path_truthy (which env t) \<longrightarrow>
            t \<in> set (missing_tools (which env)) \<and>
            (\<exists>pre post. Fore_RED @ ''Missing tools: '' @ join '', '' (missing_tools (which env))
                          = pre @ t @ post)) \<and>
         outcome (main loads env input_file) = SystemExit 1 \<and>
         future_to_url (main loads env input_file) = [])"
proof (cases "path_truthy (which env ''trufflehog'') \<and> path_truthy (which env ''gitleaks'')")
  case True
  then have "missing_tools (which env) = []" by (simp add: missing_tools_def TOOLS_def)
  then have "check_tools_installed (which env) = ([], None)"
    by (simp add: check_tools_installed_def)
  with True show ?thesis by (simp add: main_def)
next
  case False
  then have ne: "missing_tools (which env) \<noteq> []" by (auto simp: missing_tools_def TOOLS_def)
  then have chk: "check_tools_installed (which env)
      = ([Print (Fore_RED @ ''Missing tools: '' @ join '', '' (missing_tools (which env)))], Some 1)"
    by (simp add: check_tools_installed_def)
  have named: "\<forall>t \<in> set (map fst TOOLS). \<not> path_truthy (which env t) \<longrightarrow>
            t \<in> set (missing_tools (which env)) \<and>
            (\<exists>pre post. Fore_RED @ ''Missing tools: '' @ join '', '' (missing_tools (which env))
                          = pre @ t @ post)"
  proof (intro ballI impI)
    fix t
    assume t: "t \<in> set (map fst TOOLS)" and m: "\<not> path_truthy (which env t)"
    then have mem: "t \<in> set (missing_tools (which env))" by (auto simp: missing_tools_def)
    from join_names_member[OF mem] obtain pre post where
      "join '', '' (missing_tools (which env)) = pre @ t @ post" by blast
    then have "Fore_RED @ ''Missing tools: '' @ join '', '' (missing_tools (which env))
                 = (Fore_RED @ ''Missing tools: '' @ pre) @ t @ post" by simp
    with mem show "t \<in> set (missing_tools (which env)) \<and>
            (\<exists>pre post. Fore_RED @ ''Missing tools: '' @ join '', '' (missing_tools (which env))
                          = pre @ t @ post)" by blast
  qed
  from False chk named show ?thesis by (simp add: main_def)
qed

text \<open>The check at work: with both tools absent the run stops with both names printed; with
  both present \<open>main\<close> is the scan.\<close>

theorem missing_tools_abort_witness:
  "printed (main sample_loads (sample_main_env (\<lambda>tool. None) ''https://github.com/u/repo.git''
              (\<lambda>i. sample_task_env None (Inr ''{}'') (Inr ''{}'')) (\<lambda>fs. fs)) ''repos.txt'')
     = [Print (Fore_RED @ ''Missing tools: trufflehog, gitleaks'')] \<and>
   outcome (main sample_loads (sample_main_env (\<lambda>tool. None) ''https://github.com/u/repo.git''
              (\<lambda>i. sample_task_env None (Inr ''{}'') (Inr ''{}'')) (\<lambda>fs. fs)) ''repos.txt'')
     = SystemExit 1 \<and>
   future_to_url (main sample_loads (sample_main_env (\<lambda>tool. None) ''https://github.com/u/repo.git''
              (\<lambda>i. sample_task_env None (Inr ''{}'') (Inr ''{}'')) (\<lambda>fs. fs)) ''repos.txt'')
     = [] \<and>
   main sample_loads (sample_main_env (\<lambda>tool. Some (''/usr/bin/'' @ tool)) ''https://github.com/u/repo.git''
              (\<lambda>i. sample_task_env None (Inr ''{}'') (Inr ''{}'')) (\<lambda>fs. fs)) ''repos.txt''
     = run_scans sample_loads (sample_main_env (\<lambda>tool. Some (''/usr/bin/'' @ tool)) ''https://github.com/u/repo.git''
              (\<lambda>i. sample_task_env None (Inr ''{}'') (Inr ''{}'')) (\<lambda>fs. fs)) ''repos.txt''"
proof -
  let ?absent = "sample_main_env (\<lambda>tool. None) ''https://github.com/u/repo.git''
              (\<lambda>i. sample_task_env None (Inr ''{}'') (Inr ''{}'')) (\<lambda>fs. fs)"
  let ?present = "sample_main_env (\<lambda>tool. Some (''/usr/bin/'' @ tool)) ''https://github.com/u/repo.git''
              (\<lambda>i. sample_task_env None (Inr ''{}'') (Inr ''{}'')) (\<lambda>fs. fs)"
  have a: "\<not> (path_truthy (which ?absent ''trufflehog'') \<and> path_truthy (which ?absent ''gitleaks''))"
    by (simp add: sample_main_env_def path_truthy_def)
  have m: "missing_tools (which ?absent) = [''trufflehog'', ''gitleaks'']"
    by (simp add: sample_main_env_def path_truthy_def missing_tools_def TOOLS_def)
  have p: "path_truthy (which ?present ''trufflehog'') \<and> path_truthy (which ?present ''gitleaks'')"
    by (simp add: sample_main_env_def path_truthy_def)
  from missing_tools_abort[of ?absent sample_loads "''repos.txt''"] a m
  have 1: "printed (main sample_loads ?absent ''repos.txt'')
             = [Print (Fore_RED @ ''Missing tools: trufflehog, gitleaks'')] \<and>
           outcome (main sample_loads ?absent ''repos.txt'') = SystemExit 1 \<and>
           future_to_url (main sample_loads ?absent ''repos.txt'') = []"
    by simp
  from missing_tools_abort[of ?present sample_loads "''repos.txt''"] p
  have 2: "main sample_loads ?present ''repos.txt'' = run_scans sample_loads ?present ''repos.txt''"
    by simp
  from 1 2 show ?thesis by simp
qed

section \<open>A clone that fails\<close>

text \<open>
  Claim C3. When the clone of a repository raises, \<open>clone_repo\<close> returns \<^verbatim>\<open>None\<close> (its result
  type has no exception), and the result of \<open>clone_and_scan\<close> has an error that is not
  \<^verbatim>\<open>None\<close> (the text \<^verbatim>\<open>Clone failed: <url>\<close> when the temporary directory is removed without
  error), empty findings and an empty status map; no tool subprocess is run. The entry that
  \<open>main\<close> stores for the task's future is this result.
\<close>

theorem clone_failure_recorded:
  assumes "mkdtemp env = Inr temp_dir"
      and "clone_from env repo_url (path_join temp_dir (repo_name_of repo_url)) = Some e"
  shows "snd (clone_repo env repo_url temp_dir) = None \<and>
         error (snd (clone_and_scan loads env repo_url)) \<noteq> None \<and>
         error (snd (clone_and_scan loads env repo_url))
           = (case cleanup env temp_dir of
                None \<Rightarrow> Some (''Clone failed: '' @ repo_url)
              | Some c \<Rightarrow> Some (scan_error repo_url c)) \<and>
         findings (snd (clone_and_scan loads env repo_url)) = [] \<and>
         status (snd (clone_and_scan loads env repo_url)) = [] \<and>
         [ev \<leftarrow> fst (clone_and_scan loads env repo_url). case ev of Subprocess c \<Rightarrow> True | _ \<Rightarrow> False] = [] \<and>
         (worker_env menv future = env \<and> map_of f2u future = Some repo_url
            \<longrightarrow> map_of (collect loads menv f2u future report) repo_url
                  = Some (Result (snd (clone_and_scan loads env repo_url))))"
proof -
  from assms(2) have cr: "clone_repo env repo_url temp_dir =
      ([CloneFrom repo_url (path_join temp_dir (repo_name_of repo_url)),
        Print (Fore_RED @ ''Clone failed: '' @ repo_url),
        Print (Fore_YELLOW @ ''Error: '' @ exn_str e)], None)"
    by (simp add: clone_repo_def)
  with assms(1) have cs: "clone_and_scan loads env repo_url =
      ([CloneFrom repo_url (path_join temp_dir (repo_name_of repo_url)),
        Print (Fore_RED @ ''Clone failed: '' @ repo_url),
        Print (Fore_YELLOW @ ''Error: '' @ exn_str e)],
       clone_failed env temp_dir repo_url \<lparr>findings = [], status = [], error = None\<rparr>)"
    by (simp add: clone_and_scan_def)
  have col: "worker_env menv future = env \<and> map_of f2u future = Some repo_url \<Longrightarrow>
      map_of (collect loads menv f2u future report) repo_url
                 = Some (Result (snd (clone_and_scan loads env repo_url)))"
    by (simp add: collect_def future_result_def update_conv')
  from cr cs col show ?thesis
    by (auto simp: clone_failed_def leave_tempdir_def split: option.splits)
qed

text \<open>The claim at work: the clone of the only repository raises.\<close>

theorem clone_failure_recorded_witness:
  "mkdtemp (sample_task_env (Some (Exn OtherException ''Cmd git failed'')) (Inr ''{}'') (Inr ''{}''))
     = Inr ''/tmp/tmpk3'' \<and>
   snd (clone_and_scan sample_loads
          (sample_task_env (Some (Exn OtherException ''Cmd git failed'')) (Inr ''{}'') (Inr ''{}''))
          ''https://github.com/u/gone.git'')
     = \<lparr>findings = [], status = [],
        error = Some ''Clone failed: https://github.com/u/gone.git''\<rparr> \<and>
   map_of (collect sample_loads
             (sample_main_env (\<lambda>tool. None) ''https://github.com/u/gone.git''
                (\<lambda>i. sample_task_env (Some (Exn OtherException ''Cmd git failed'')) (Inr ''{}'') (Inr ''{}''))
                (\<lambda>fs. fs))
             [(0, ''https://github.com/u/gone.git'')] 0 [])
       ''https://github.com/u/gone.git''
     = Some (Result \<lparr>findings = [], status = [],
                     error = Some ''Clone failed: https://github.com/u/gone.git''\<rparr>)"
proof -
  let ?env = "sample_task_env (Some (Exn OtherException ''Cmd git failed'')) (Inr ''{}'') (Inr ''{}'')"
  let ?url = "''https://github.com/u/gone.git''"
  let ?menv = "sample_main_env (\<lambda>tool. None) ?url (\<lambda>i. ?env) (\<lambda>fs. fs)"
  have t: "mkdtemp ?env = Inr ''/tmp/tmpk3''" by (simp add: sample_task_env_def)
  have c: "clone_from ?env ?url (path_join ''/tmp/tmpk3'' (repo_name_of ?url))
             = Some (Exn OtherException ''Cmd git failed'')"
    by (simp add: sample_task_env_def)
  have cl: "cleanup ?env ''/tmp/tmpk3'' = None" by (simp add: sample_task_env_def)
  have w: "worker_env ?menv 0 = ?env \<and> map_of [(0::nat, ?url)] 0 = Some ?url"
    by (simp add: sample_main_env_def)
  note inst = clone_failure_recorded[OF t c, of sample_loads ?menv 0 "[(0, ?url)]" "[]"]
  from inst cl
  have "error (snd (clone_and_scan sample_loads ?env ?url)) = Some (''Clone failed: '' @ ?url) \<and>
        findings (snd (clone_and_scan sample_loads ?env ?url)) = [] \<and>
        status (snd (clone_and_scan sample_loads ?env ?url)) = []"
    by simp
  then have r: "snd (clone_and_scan sample_loads ?env ?url)
     = \<lparr>findings = [], status = [], error = Some (''Clone failed: '' @ ?url)\<rparr>"
    by (cases "snd (clone_and_scan sample_loads ?env ?url)") simp
  from inst w have "map_of (collect sample_loads ?menv [(0, ?url)] 0 []) ?url
      = Some (Result (snd (clone_and_scan sample_loads ?env ?url)))"
    by blast
  with r t show ?thesis by simp
qed

section \<open>Reading the input file\<close>

lemma dropWhile_all: "\<forall>x \<in> set l. P x \<Longrightarrow> dropWhile P l = []"
  by (induction l) auto

lemma dropWhile_all_snoc: "\<forall>x \<in> set l. P x \<Longrightarrow> P c \<Longrightarrow> dropWhile P (l @ [c]) = []"
  by (induction l) auto

lemma dropWhile_some_snoc:
  "\<not> (\<forall>x \<in> set l. P x) \<Longrightarrow> dropWhile P (l @ [c]) = dropWhile P l @ [c]"
  by (induction l) auto

lemma strip_snoc_space:
  assumes c: "py_isspace c"
  shows "strip (l @ [c]) = strip l"
proof (cases "\<forall>x \<in> set l. py_isspace x")
  case True
  show ?thesis unfolding strip_def dropWhile_all[OF True] dropWhile_all_snoc[OF True c] ..
next
  case False
  show ?thesis unfolding strip_def dropWhile_some_snoc[OF False] using c by simp
qed

lemma comprehension_map_filter:
  "concat (map (\<lambda>x. if P x then [f x] else []) xs) = map f (filter P xs)"
  by (induction xs) auto

lemma file_lines_split:
  "file_lines t =
     map (\<lambda>l. l @ [CHR 0x0A]) (butlast (split_on CHR 0x0A t))
     @ (if last (split_on CHR 0x0A t) = [] then [] else [last (split_on CHR 0x0A t)])"
proof (induction t)
  case Nil
  show ?case by simp
next
  case (Cons c cs)
  obtain p ps where sp: "split_on CHR 0x0A cs = p # ps"
    using split_on_not_Nil[of "CHR 0x0A" cs] by (cases "split_on CHR 0x0A cs") auto
  show ?case
  proof (cases "c = CHR 0x0A")
    case True
    with Cons sp show ?thesis by simp
  next
    case False
    show ?thesis
    proof (cases ps)
      case Nil
      with Cons sp False show ?thesis by (cases "p = []") auto
    next
      case (Cons q qs)
      with Cons.IH sp False show ?thesis by simp
    qed
  qed
qed

lemma read_repos_split:
  "read_repos t = map strip (filter (\<lambda>l. strip l \<noteq> []) (split_on CHR 0x0A t))"
proof -
  let ?S = "split_on CHR 0x0A t"
  let ?P = "\<lambda>l. strip l \<noteq> []"
  have nl: "py_isspace CHR 0x0A" by (simp add: py_isspace_def)
  have S: "butlast ?S @ [last ?S] = ?S"
    using split_on_not_Nil[of "CHR 0x0A" t] by simp
  have a: "map strip (filter ?P (map (\<lambda>l. l @ [CHR 0x0A]) xs)) = map strip (filter ?P xs)" for xs
    by (induction xs) (auto simp: strip_snoc_space[OF nl])
  have b: "map strip (filter ?P (if last ?S = [] then [] else [last ?S]))
           = map strip (filter ?P [last ?S])"
    by (simp add: strip_def)
  have "read_repos t = map strip (filter ?P (file_lines t))"
    by (simp add: read_repos_def comprehension_map_filter)
  also have "\<dots> = map strip (filter ?P (butlast ?S)) @ map strip (filter ?P [last ?S])"
    unfolding file_lines_split[of t] filter_append map_append a b ..
  also have "\<dots> = map strip (filter ?P (butlast ?S @ [last ?S]))" by simp
  also have "\<dots> = map strip (filter ?P ?S)" unfolding S ..
  finally show ?thesis .
qed

lemma main_submits:
  "missing_tools (which env) = [] \<Longrightarrow> read_text env input_file = Inr t \<Longrightarrow>
   future_to_url (main loads env input_file) = zip [0..<length (read_repos t)] (read_repos t)"
  by (simp add: main_def check_tools_installed_def run_scans_def Let_def)

text \<open>
  Claim C7. When the tool check passes and the input file is read, the URLs that \<open>main\<close>
  submits are, in order and with their multiplicities, the stripped lines of the file that
  are not blank: a URL written on several lines is submitted once per line, each time
  under a future of its own, and no blank URL is submitted.
\<close>

theorem submitted_urls_are_nonblank_lines:
  assumes "missing_tools (which env) = []"
      and "read_text env input_file = Inr t"
  shows "map snd (future_to_url (main loads env input_file))
           = map strip (filter (\<lambda>l. strip l \<noteq> []) (split_on CHR 0x0A t)) \<and>
         mset (map snd (future_to_url (main loads env input_file)))
           = image_mset strip (filter_mset (\<lambda>l. strip l \<noteq> []) (mset (split_on CHR 0x0A t))) \<and>
         distinct (map fst (future_to_url (main loads env input_file))) \<and>
         count (mset (map snd (future_to_url (main loads env input_file)))) u
           = (if u = [] then 0 else length [l \<leftarrow> split_on CHR 0x0A t. strip l = u])"
proof -
  let ?f2u = "future_to_url (main loads env input_file)"
  let ?S = "split_on CHR 0x0A t"
  from main_submits[OF assms] have f: "?f2u = zip [0..<length (read_repos t)] (read_repos t)" .
  then have urls: "map snd ?f2u = map strip (filter (\<lambda>l. strip l \<noteq> []) ?S)"
    by (simp add: read_repos_split[symmetric])
  have keys: "distinct (map fst ?f2u)" using f by simp
  have ms: "mset (map snd ?f2u) = image_mset strip (filter_mset (\<lambda>l. strip l \<noteq> []) (mset ?S))"
    using urls by simp
  have cnt: "count_list (map strip (filter (\<lambda>l. strip l \<noteq> []) xs)) u
               = length [l \<leftarrow> xs. strip l \<noteq> [] \<and> strip l = u]" for xs
    by (induction xs) auto
  have "count (mset (map snd ?f2u)) u = length [l \<leftarrow> ?S. strip l \<noteq> [] \<and> strip l = u]"
    unfolding urls count_mset by (rule cnt)
  also have "\<dots> = (if u = [] then 0 else length [l \<leftarrow> ?S. strip l = u])"
  proof (cases "u = []")
    case True
    then show ?thesis by simp
  next
    case False
    then have "(\<lambda>l. strip l \<noteq> [] \<and> strip l = u) = (\<lambda>l. strip l = u)" by auto
    with False show ?thesis by simp
  qed
  finally show ?thesis using urls keys ms by simp
qed

text \<open>The claim at work: a file of five lines, two of them blank, one URL written twice.\<close>

theorem submitted_urls_are_nonblank_lines_witness:
  "missing_tools (\<lambda>tool. Some (''/usr/bin/'' @ tool)) = [] \<and>
   map snd (future_to_url (main sample_loads
      (sample_main_env (\<lambda>tool. Some (''/usr/bin/'' @ tool))
         (''https://h/a'' @ [CHR 0x0A] @ ''  '' @ [CHR 0x0A, CHR 0x0A] @ '' https://h/b ''
            @ [CHR 0x0A] @ ''https://h/a'' @ [CHR 0x0A])
         (\<lambda>i. sample_task_env None (Inr ''{}'') (Inr ''{}'')) (\<lambda>fs. fs))
      ''repos.txt''))
     = [''https://h/a'', ''https://h/b'', ''https://h/a'']"
proof -
  let ?t = "''https://h/a'' @ [CHR 0x0A] @ ''  '' @ [CHR 0x0A, CHR 0x0A] @ '' https://h/b ''
            @ [CHR 0x0A] @ ''https://h/a'' @ [CHR 0x0A]"
  let ?env = "sample_main_env (\<lambda>tool. Some (''/usr/bin/'' @ tool)) ?t
         (\<lambda>i. sample_task_env None (Inr ''{}'') (Inr ''{}'')) (\<lambda>fs. fs)"
  have m: "missing_tools (which ?env) = []"
    by (simp add: sample_main_env_def missing_tools_def TOOLS_def path_truthy_def)
  have r: "read_text ?env ''repos.txt'' = Inr ?t" by (simp add: sample_main_env_def)
  have s: "map strip (filter (\<lambda>l. strip l \<noteq> []) (split_on CHR 0x0A ?t))
             = [''https://h/a'', ''https://h/b'', ''https://h/a'']"
    by (simp add: strip_def py_isspace_def)
  have w: "which ?env = (\<lambda>tool. Some (''/usr/bin/'' @ tool))" by (simp add: sample_main_env_def)
  from submitted_urls_are_nonblank_lines[OF m r, of sample_loads] s m w show ?thesis by simp
qed

section \<open>The global report\<close>

lemma map_of_collect:
  "map_of (collect loads env f2u future report) url =
     (if map_of f2u future = Some url
      then Some (Result (snd (clone_and_scan loads (worker_env env future) url)))
      else map_of report url)"
  by (auto simp: collect_def future_result_def update_conv' split: option.splits)

lemma keys_collect:
  "fst ` set (collect loads env f2u future report) =
     fst ` set report \<union> (case map_of f2u future of None \<Rightarrow> {} | Some url \<Rightarrow> {url})"
  by (auto simp: collect_def future_result_def dom_update split: option.splits)

lemma distinct_collect:
  "distinct (map fst report) \<Longrightarrow> distinct (map fst (collect loads env f2u future report))"
  by (auto simp: collect_def future_result_def distinct_update split: option.splits)

lemma distinct_fold_collect:
  "distinct (map fst report) \<Longrightarrow>
   distinct (map fst (fold (collect loads env f2u) order report))"
  by (induction order arbitrary: report) (auto simp: distinct_collect)

lemma keys_fold_collect:
  "fst ` set (fold (collect loads env f2u) order report) =
     fst ` set report \<union> {url. \<exists>i \<in> set order. map_of f2u i = Some url}"
proof (induction order arbitrary: report)
  case Nil
  show ?case by simp
next
  case (Cons x xs)
  show ?case
    unfolding fold_simps Cons.IH keys_collect by (auto split: option.splits)
qed

text \<open>The entry of a URL is the result of the last completed task that scanned it.\<close>

lemma fold_collect_map_of:
  "map_of (fold (collect loads env f2u) order report) url =
     (case [i \<leftarrow> rev order. map_of f2u i = Some url] of
        [] \<Rightarrow> map_of report url
      | i # js \<Rightarrow> Some (Result (snd (clone_and_scan loads (worker_env env i) url))))"
proof (induction order arbitrary: report)
  case Nil
  show ?case by simp
next
  case (Cons x xs)
  show ?case
  proof (cases "[i \<leftarrow> rev xs. map_of f2u i = Some url]")
    case Nil
    then show ?thesis
      unfolding fold_simps Cons.IH by (simp add: map_of_collect)
  next
    case (Cons i js)
    then show ?thesis
      unfolding fold_simps Cons.IH by simp
  qed
qed

lemma case_rev_last:
  "xs \<noteq> [] \<Longrightarrow> (case rev xs of [] \<Rightarrow> a | i # js \<Rightarrow> f i) = f (last xs)"
  by (cases xs rule: rev_cases) auto

lemma distinct_singleton: "distinct xs \<Longrightarrow> set xs = {a} \<Longrightarrow> xs = [a]"
proof (cases xs)
  case Nil
  assume "set xs = {a}"
  with Nil show ?thesis by simp
next
  case (Cons x ys)
  assume d: "distinct xs" and s: "set xs = {a}"
  from s Cons have x: "x = a" by auto
  from s Cons have "set ys \<subseteq> {a}" by auto
  moreover from d Cons x have "a \<notin> set ys" by simp
  ultimately have "ys = []" by (cases ys) auto
  with Cons x show ?thesis by simp
qed

lemma map_of_zip_upt:
  "map_of (zip [0..<length ys] ys) i = (if i < length ys then Some (ys ! i) else None)"
proof (cases "i < length ys")
  case True
  with map_of_zip_nth[of "[0..<length ys]" ys i] show ?thesis by simp
next
  case False
  with map_of_zip_is_None[of "[0..<length ys]" ys i] show ?thesis by simp
qed

lemma main_reports:
  "missing_tools (which env) = [] \<Longrightarrow> read_text env input_file = Inr t \<Longrightarrow>
   outcome (main loads env input_file) =
     Reported (fold (collect loads env (zip [0..<length (read_repos t)] (read_repos t)))
                 (as_completed env [0..<length (read_repos t)]) [])"
  by (simp add: main_def check_tools_installed_def run_scans_def Let_def)

text \<open>
  Claim C10. The global report is keyed by repository URL. When the tool check passes, the
  input file is read and every submitted future completes once, the report has exactly one
  entry for each distinct URL of the file; every line of the file was submitted as a task of
  its own, and the entry of a URL is the result of the task that completed last among the
  tasks scanning that URL.
\<close>

theorem report_keeps_last_completed:
  assumes "missing_tools (which env) = []"
      and "read_text env input_file = Inr t"
      and "mset (as_completed env [0..<length (read_repos t)]) = mset [0..<length (read_repos t)]"
  shows "\<exists>report.
           outcome (main loads env input_file) = Reported report \<and>
           distinct (map fst report) \<and>
           set (map fst report) = set (read_repos t) \<and>
           map fst (future_to_url (main loads env input_file)) = [0..<length (read_repos t)] \<and>
           map snd (future_to_url (main loads env input_file)) = read_repos t \<and>
           (\<forall>url \<in> set (read_repos t).
              [i \<leftarrow> as_completed env [0..<length (read_repos t)]. read_repos t ! i = url] \<noteq> [] \<and>
              map_of report url =
                Some (Result (snd (clone_and_scan loads
                   (worker_env env
                      (last [i \<leftarrow> as_completed env [0..<length (read_repos t)]. read_repos t ! i = url]))
                   url))))"
proof -
  let ?repos = "read_repos t"
  let ?n = "length ?repos"
  let ?f2u = "zip [0..<?n] ?repos"
  let ?order = "as_completed env [0..<?n]"
  let ?report = "fold (collect loads env ?f2u) ?order []"
  from assms(3) have so: "set ?order = {0..<?n}" by (metis mset_eq_setD set_upt)
  have out: "outcome (main loads env input_file) = Reported ?report"
    by (rule main_reports[OF assms(1,2)])
  have f2u: "future_to_url (main loads env input_file) = ?f2u"
    by (rule main_submits[OF assms(1,2)])
  have dist: "distinct (map fst ?report)" by (rule distinct_fold_collect) simp
  have keys: "set (map fst ?report) = set ?repos"
  proof -
    have "{url. \<exists>i \<in> set ?order. map_of ?f2u i = Some url} = set ?repos"
      unfolding so map_of_zip_upt by (fastforce simp: in_set_conv_nth)
    then show ?thesis by (simp add: keys_fold_collect)
  qed
  have flt: "[i \<leftarrow> ?order. map_of ?f2u i = Some url] = [i \<leftarrow> ?order. ?repos ! i = url]" for url
  proof (rule filter_cong[OF refl])
    fix i assume "i \<in> set ?order"
    with so have "i < ?n" by simp
    then show "(map_of ?f2u i = Some url) = (?repos ! i = url)"
      unfolding map_of_zip_upt by simp
  qed
  have ent: "[i \<leftarrow> ?order. ?repos ! i = url] \<noteq> [] \<and>
             map_of ?report url =
                Some (Result (snd (clone_and_scan loads
                   (worker_env env (last [i \<leftarrow> ?order. ?repos ! i = url])) url)))"
    if u: "url \<in> set ?repos" for url
  proof -
    from u obtain i where "i < ?n" "?repos ! i = url" by (auto simp: in_set_conv_nth)
    with so have ne: "[i \<leftarrow> ?order. ?repos ! i = url] \<noteq> []"
      by (auto simp: filter_empty_conv)
    let ?l = "[i \<leftarrow> ?order. ?repos ! i = url]"
    have "[i \<leftarrow> rev ?order. map_of ?f2u i = Some url] = rev ?l"
      unfolding flt[symmetric] by (rule rev_filter[symmetric])
    then have "map_of ?report url =
        (case rev ?l of
           [] \<Rightarrow> map_of [] url
         | i # js \<Rightarrow> Some (Result (snd (clone_and_scan loads (worker_env env i) url))))"
      unfolding fold_collect_map_of by simp
    also have "\<dots> = Some (Result (snd (clone_and_scan loads (worker_env env (last ?l)) url)))"
      by (rule case_rev_last[OF ne])
    finally have "map_of ?report url =
        Some (Result (snd (clone_and_scan loads (worker_env env (last ?l)) url)))" .
    with ne show ?thesis by simp
  qed
  have fk: "map fst (future_to_url (main loads env input_file)) = [0..<?n]"
    unfolding f2u by simp
  have fs: "map snd (future_to_url (main loads env input_file)) = ?repos"
    unfolding f2u by simp
  from ent have every: "\<forall>url \<in> set ?repos.
              [i \<leftarrow> ?order. ?repos ! i = url] \<noteq> [] \<and>
              map_of ?report url =
                Some (Result (snd (clone_and_scan loads
                   (worker_env env (last [i \<leftarrow> ?order. ?repos ! i = url])) url)))"
    by blast
  show ?thesis
    by (intro exI[of _ ?report] conjI out dist keys fk fs every)
qed

text \<open>The claim at work: the file names one URL on two lines; the task of the first line,
  whose clone fails, completes last, and its result is the only entry.\<close>

theorem report_keeps_last_completed_witness:
  "read_repos (''https://h/a\<newline>https://h/a\<newline>'')
     = [''https://h/a'', ''https://h/a''] \<and>
   mset (rev [0..<2]) = mset [0..<2] \<and>
   (\<exists>report.
      outcome (main sample_loads
        (sample_main_env (\<lambda>tool. Some (''/usr/bin/'' @ tool))
           (''https://h/a\<newline>https://h/a\<newline>'')
           (\<lambda>i. if i = 0 then sample_task_env (Some (Exn OtherException ''Cmd git failed''))
                                 (Inr ''{}'') (Inr ''{}'')
                 else sample_task_env None (Inr ''[]'') (Inr ''{}''))
           rev)
        ''repos.txt'') = Reported report \<and>
      map fst report = [''https://h/a''] \<and>
      map_of report ''https://h/a''
        = Some (Result \<lparr>findings = [], status = [], error = Some ''Clone failed: https://h/a''\<rparr>))"
proof -
  let ?t = "''https://h/a\<newline>https://h/a\<newline>''"
  let ?bad = "sample_task_env (Some (Exn OtherException ''Cmd git failed'')) (Inr ''{}'') (Inr ''{}'')"
  let ?env = "sample_main_env (\<lambda>tool. Some (''/usr/bin/'' @ tool)) ?t
           (\<lambda>i. if i = 0 then ?bad else sample_task_env None (Inr ''[]'') (Inr ''{}''))
           rev"
  have m: "missing_tools (which ?env) = []"
    by (simp add: sample_main_env_def missing_tools_def TOOLS_def path_truthy_def)
  have r: "read_text ?env ''repos.txt'' = Inr ?t" by (simp add: sample_main_env_def)
  have rr: "read_repos ?t = [''https://h/a'', ''https://h/a'']"
    by (simp add: read_repos_def strip_def py_isspace_def)
  have ac: "as_completed ?env [0..<length (read_repos ?t)] = [Suc 0, 0]"
    by (simp add: sample_main_env_def rr)
  have p: "mset (as_completed ?env [0..<length (read_repos ?t)]) = mset [0..<length (read_repos ?t)]"
    by (simp add: sample_main_env_def)
  have w0: "worker_env ?env 0 = ?bad" by (simp add: sample_main_env_def)
  have res: "snd (clone_and_scan sample_loads ?bad ''https://h/a'')
      = \<lparr>findings = [], status = [], error = Some ''Clone failed: https://h/a''\<rparr>"
    by code_simp
  from report_keeps_last_completed[OF m r p, of sample_loads]
  obtain report where
    o: "outcome (main sample_loads ?env ''repos.txt'') = Reported report" and
    d: "distinct (map fst report)" and
    k: "set (map fst report) = set (read_repos ?t)" and
    e: "\<forall>url \<in> set (read_repos ?t).
              [i \<leftarrow> as_completed ?env [0..<length (read_repos ?t)]. read_repos ?t ! i = url] \<noteq> [] \<and>
              map_of report url =
                Some (Result (snd (clone_and_scan sample_loads
                   (worker_env ?env
                      (last [i \<leftarrow> as_completed ?env [0..<length (read_repos ?t)]. read_repos ?t ! i = url]))
                   url)))"
    by (elim exE conjE) (rule that, assumption+)
  have mem: "''https://h/a'' \<in> set (read_repos ?t)" by (simp add: rr)
  have l: "last [i \<leftarrow> as_completed ?env [0..<length (read_repos ?t)].
                   read_repos ?t ! i = ''https://h/a''] = 0"
    unfolding ac by (simp add: rr)
  from e[rule_format, OF mem, THEN conjunct2]
  have "map_of report ''https://h/a''
        = Some (Result (snd (clone_and_scan sample_loads (worker_env ?env 0) ''https://h/a'')))"
    unfolding l .
  with w0 res have ent: "map_of report ''https://h/a''
        = Some (Result \<lparr>findings = [], status = [], error = Some ''Clone failed: https://h/a''\<rparr>)"
    by simp
  from k rr have "set (map fst report) = {''https://h/a''}" by simp
  with d have ks: "map fst report = [''https://h/a'']" by (rule distinct_singleton)
  have ms: "mset (rev [0..<2]) = mset [0..<2]" by simp
  show ?thesis by (intro conjI exI[of _ report] rr ms o ks ent)
qed

section \<open>Exceptions inside a task\<close>

lemma scan_tools_error:
  "scan_tools loads env repo_dir repo_url ts results evs = (raised, res, evs') \<Longrightarrow>
   error res = error results"
proof (induction ts arbitrary: results evs)
  case Nil
  then show ?case by simp
next
  case (Cons tc rest)
  obtain t c where tc: "tc = (t, c)" by (cases tc)
  show ?case
  proof (cases "run_tool loads env t (format_command (cfg_command c) repo_dir repo_url) repo_dir repo_url")
    case (Pair evs1 r)
    show ?thesis
    proof (cases r)
      case (Inl e)
      with Cons.prems tc Pair show ?thesis by simp
    next
      case (Inr v)
      show ?thesis
      proof (cases "status_string v")
        case (Inl e)
        with Cons.prems tc Pair Inr show ?thesis by auto
      next
        case (Inr s)
        with Cons.prems tc Pair \<open>r = Inr v\<close>
        have "scan_tools loads env repo_dir repo_url rest
                (results\<lparr>findings := AList.update t v (findings results),
                          status := AList.update t s (status results)\<rparr>) (evs @ evs1) = (raised, res, evs')"
          by simp
        from Cons.IH[OF this] show ?thesis by simp
      qed
    qed
  qed
qed

text \<open>When the loop stops on an exception, the status map holds the tools that were
  processed before the one that raised, and the findings hold those and possibly the value
  of the tool that raised.\<close>

lemma scan_tools_raised:
  "scan_tools loads env repo_dir repo_url ts results evs = (Some e, res, evs') \<Longrightarrow>
   \<exists>done t c rest.
      ts = done @ (t, c) # rest \<and>
      fst ` set (status res) = fst ` set (status results) \<union> fst ` set done \<and>
      (fst ` set (findings res) = fst ` set (findings results) \<union> fst ` set done \<or>
       fst ` set (findings res) = insert t (fst ` set (findings results) \<union> fst ` set done)) \<and>
      (snd (run_tool loads env t (format_command (cfg_command c) repo_dir repo_url) repo_dir repo_url)
         = Inl e \<or>
       (\<exists>v. snd (run_tool loads env t (format_command (cfg_command c) repo_dir repo_url) repo_dir repo_url)
                = Inr v \<and> status_string v = Inl e))"
proof (induction ts arbitrary: results evs)
  case Nil
  then show ?case by simp
next
  case (Cons tc ts')
  obtain t c where tc: "tc = (t, c)" by (cases tc)
  let ?run = "run_tool loads env t (format_command (cfg_command c) repo_dir repo_url) repo_dir repo_url"
  show ?case
  proof (cases ?run)
    case (Pair evs1 r)
    show ?thesis
    proof (cases r)
      case (Inl e')
      with Cons.prems tc Pair have "e' = e" "res = results" by simp_all
      with Inl Pair tc have
        "tc # ts' = [] @ (t, c) # ts' \<and>
         fst ` set (status res) = fst ` set (status results) \<union> fst ` set [] \<and>
         (fst ` set (findings res) = fst ` set (findings results) \<union> fst ` set [] \<or>
          fst ` set (findings res) = insert t (fst ` set (findings results) \<union> fst ` set [])) \<and>
         (snd ?run = Inl e \<or> (\<exists>v. snd ?run = Inr v \<and> status_string v = Inl e))"
        by simp
      then show ?thesis
        by - (rule exI[of _ "[]"], rule exI[of _ t], rule exI[of _ c], rule exI[of _ ts'], assumption)
    next
      case (Inr v)
      show ?thesis
      proof (cases "status_string v")
        case (Inl e')
        with Cons.prems tc Pair Inr have "e' = e"
          "res = results\<lparr>findings := AList.update t v (findings results)\<rparr>" by simp_all
        with Inl Inr Pair tc have
          "tc # ts' = [] @ (t, c) # ts' \<and>
           fst ` set (status res) = fst ` set (status results) \<union> fst ` set [] \<and>
           (fst ` set (findings res) = fst ` set (findings results) \<union> fst ` set [] \<or>
            fst ` set (findings res) = insert t (fst ` set (findings results) \<union> fst ` set [])) \<and>
           (snd ?run = Inl e \<or> (\<exists>v. snd ?run = Inr v \<and> status_string v = Inl e))"
          by (simp add: dom_update)
        then show ?thesis
          by - (rule exI[of _ "[]"], rule exI[of _ t], rule exI[of _ c], rule exI[of _ ts'], assumption)
      next
        case (Inr s)
        let ?r2 = "results\<lparr>findings := AList.update t v (findings results),
                          status := AList.update t s (status results)\<rparr>"
        from Cons.prems tc Pair \<open>r = Inr v\<close> Inr
        have "scan_tools loads env repo_dir repo_url ts' ?r2 (evs @ evs1) = (Some e, res, evs')"
          by simp
        from Cons.IH[OF this] obtain done' t' c' rest where
          ts': "ts' = done' @ (t', c') # rest" and
          st: "fst ` set (status res) = fst ` set (status ?r2) \<union> fst ` set done'" and
          fi: "fst ` set (findings res) = fst ` set (findings ?r2) \<union> fst ` set done' \<or>
               fst ` set (findings res) = insert t' (fst ` set (findings ?r2) \<union> fst ` set done')" and
          ca: "snd (run_tool loads env t' (format_command (cfg_command c') repo_dir repo_url) repo_dir repo_url)
                 = Inl e \<or>
               (\<exists>v. snd (run_tool loads env t' (format_command (cfg_command c') repo_dir repo_url) repo_dir repo_url)
                       = Inr v \<and> status_string v = Inl e)"
          by (elim exE conjE) (rule that, assumption+)
        from ts' tc have 1: "tc # ts' = ((t, c) # done') @ (t', c') # rest" by simp
        from st have 2: "fst ` set (status res) = fst ` set (status results) \<union> fst ` set ((t, c) # done')"
          by (auto simp: dom_update)
        from fi have 3:
          "fst ` set (findings res) = fst ` set (findings results) \<union> fst ` set ((t, c) # done') \<or>
           fst ` set (findings res) = insert t' (fst ` set (findings results) \<union> fst ` set ((t, c) # done'))"
          by (auto simp: dom_update)
        show ?thesis
          by (rule exI[of _ "(t, c) # done'"], rule exI[of _ t'], rule exI[of _ c'],
              rule exI[of _ rest], intro conjI 1 2 3 ca)
      qed
    qed
  qed
qed

text \<open>
  Claim C4, as the code has it. An exception raised inside a repository's task never leaves
  the task: \<open>clone_and_scan\<close> returns a result, and \<open>main\<close> stores it as the entry of the
  repository. The exception is recorded in the error field of the result. The findings and
  the status map are empty when the temporary directory cannot be created; when the
  exception is raised while the tools run, they are what the loop had stored until then:
  the status map holds the tools processed before the tool that raised, the findings hold
  those tools and possibly the tool that raised.
\<close>

theorem task_exception_recorded:
  "future_result loads env repo_url = Inr (snd (clone_and_scan loads env repo_url)) \<and>
   (map_of f2u future = Some repo_url
      \<longrightarrow> map_of (collect loads menv f2u future report) repo_url
            = Some (Result (snd (clone_and_scan loads (worker_env menv future) repo_url)))) \<and>
   (mkdtemp env = Inl e
      \<longrightarrow> snd (clone_and_scan loads env repo_url)
            = \<lparr>findings = [], status = [], error = Some (scan_error repo_url e)\<rparr>) \<and>
   (mkdtemp env = Inr temp_dir \<and>
    repo_dir = path_join temp_dir (repo_name_of repo_url) \<and> repo_dir \<noteq> [] \<and>
    clone_from env repo_url repo_dir = None \<and>
    scan_tools loads env repo_dir repo_url TOOLS \<lparr>findings = [], status = [], error = None\<rparr>
        [CloneFrom repo_url repo_dir] = (raised, kept, trace)
      \<longrightarrow> error (snd (clone_and_scan loads env repo_url))
              = (case cleanup env temp_dir of
                   Some c \<Rightarrow> Some (scan_error repo_url c)
                 | None \<Rightarrow> (case raised of
                              Some x \<Rightarrow> Some (scan_error repo_url x)
                            | None \<Rightarrow> None)) \<and>
          findings (snd (clone_and_scan loads env repo_url)) = findings kept \<and>
          status (snd (clone_and_scan loads env repo_url)) = status kept \<and>
          (\<forall>x. raised = Some x \<longrightarrow>
             (\<exists>done t c rest.
                TOOLS = done @ (t, c) # rest \<and>
                fst ` set (status kept) = fst ` set done \<and>
                (fst ` set (findings kept) = fst ` set done \<or>
                 fst ` set (findings kept) = insert t (fst ` set done)) \<and>
                (snd (run_tool loads env t (format_command (cfg_command c) repo_dir repo_url)
                        repo_dir repo_url) = Inl x \<or>
                 (\<exists>v. snd (run_tool loads env t (format_command (cfg_command c) repo_dir repo_url)
                              repo_dir repo_url) = Inr v \<and> status_string v = Inl x)))))"
proof (intro conjI impI)
  show "future_result loads env repo_url = Inr (snd (clone_and_scan loads env repo_url))"
    by (simp add: future_result_def)
next
  assume "map_of f2u future = Some repo_url"
  then show "map_of (collect loads menv f2u future report) repo_url
            = Some (Result (snd (clone_and_scan loads (worker_env menv future) repo_url)))"
    by (simp add: map_of_collect)
next
  assume "mkdtemp env = Inl e"
  then show "snd (clone_and_scan loads env repo_url)
            = \<lparr>findings = [], status = [], error = Some (scan_error repo_url e)\<rparr>"
    by (simp add: clone_and_scan_def)
next
  assume a: "mkdtemp env = Inr temp_dir \<and>
    repo_dir = path_join temp_dir (repo_name_of repo_url) \<and> repo_dir \<noteq> [] \<and>
    clone_from env repo_url repo_dir = None \<and>
    scan_tools loads env repo_dir repo_url TOOLS \<lparr>findings = [], status = [], error = None\<rparr>
        [CloneFrom repo_url repo_dir] = (raised, kept, trace)"
  then have md: "mkdtemp env = Inr temp_dir"
    and rd: "repo_dir = path_join temp_dir (repo_name_of repo_url)"
    and ne: "repo_dir \<noteq> []"
    and cf: "clone_from env repo_url repo_dir = None"
    and sc: "scan_tools loads env repo_dir repo_url TOOLS
        \<lparr>findings = [], status = [], error = None\<rparr> [CloneFrom repo_url repo_dir]
          = (raised, kept, trace)"
    by blast+
  from cf have cr: "clone_repo env repo_url temp_dir = ([CloneFrom repo_url repo_dir], Some repo_dir)"
    by (simp add: clone_repo_def Let_def rd[symmetric])
  from md cr ne sc have cs: "snd (clone_and_scan loads env repo_url)
      = leave_tempdir env temp_dir repo_url raised kept"
    by (simp add: clone_and_scan_def)
  from scan_tools_error[OF sc] have er: "error kept = None" by simp
  show "error (snd (clone_and_scan loads env repo_url))
              = (case cleanup env temp_dir of
                   Some c \<Rightarrow> Some (scan_error repo_url c)
                 | None \<Rightarrow> (case raised of
                              Some x \<Rightarrow> Some (scan_error repo_url x)
                            | None \<Rightarrow> None))"
    unfolding cs using er by (simp add: leave_tempdir_def split: option.splits)
  show "findings (snd (clone_and_scan loads env repo_url)) = findings kept"
    unfolding cs by (rule findings_leave_tempdir)
  show "status (snd (clone_and_scan loads env repo_url)) = status kept"
    unfolding cs by (rule status_leave_tempdir)
  show "\<forall>x. raised = Some x \<longrightarrow>
             (\<exists>done t c rest.
                TOOLS = done @ (t, c) # rest \<and>
                fst ` set (status kept) = fst ` set done \<and>
                (fst ` set (findings kept) = fst ` set done \<or>
                 fst ` set (findings kept) = insert t (fst ` set done)) \<and>
                (snd (run_tool loads env t (format_command (cfg_command c) repo_dir repo_url)
                        repo_dir repo_url) = Inl x \<or>
                 (\<exists>v. snd (run_tool loads env t (format_command (cfg_command c) repo_dir repo_url)
                              repo_dir repo_url) = Inr v \<and> status_string v = Inl x)))"
  proof (intro allI impI)
    fix x assume "raised = Some x"
    with sc have "scan_tools loads env repo_dir repo_url TOOLS
        \<lparr>findings = [], status = [], error = None\<rparr> [CloneFrom repo_url repo_dir]
          = (Some x, kept, trace)" by simp
    from scan_tools_raised[OF this]
    show "\<exists>done t c rest.
                TOOLS = done @ (t, c) # rest \<and>
                fst ` set (status kept) = fst ` set done \<and>
                (fst ` set (findings kept) = fst ` set done \<or>
                 fst ` set (findings kept) = insert t (fst ` set done)) \<and>
                (snd (run_tool loads env t (format_command (cfg_command c) repo_dir repo_url)
                        repo_dir repo_url) = Inl x \<or>
                 (\<exists>v. snd (run_tool loads env t (format_command (cfg_command c) repo_dir repo_url)
                              repo_dir repo_url) = Inr v \<and> status_string v = Inl x))"
      by simp
  qed
qed

text \<open>The claim as the specification words it fails: \<^verbatim>\<open>trufflehog\<close> reports two records, then
  the subprocess of \<^verbatim>\<open>gitleaks\<close> raises; the error is recorded, and the findings and the
  status of \<^verbatim>\<open>trufflehog\<close> stay in the entry.\<close>

theorem task_exception_keeps_findings:
  "subprocess_run
      (sample_task_env None (Inr ''{}\<newline>{}\<newline>'')
         (Inl (Exn OSError ''[Errno 12] Cannot allocate memory'')))
      ''gitleaks detect --source /tmp/tmpk3/repo --no-git --exit-code 0 --report-format json'' 600
     = Inl (Exn OSError ''[Errno 12] Cannot allocate memory'') \<and>
   snd (clone_and_scan sample_loads
          (sample_task_env None (Inr ''{}\<newline>{}\<newline>'')
             (Inl (Exn OSError ''[Errno 12] Cannot allocate memory'')))
          ''https://github.com/u/repo.git'')
     = \<lparr>findings = [(''trufflehog'', PList [PDict [], PDict []])],
        status = [(''trufflehog'', ''2 findings'')],
        error = Some ''Error scanning https://github.com/u/repo.git: [Errno 12] Cannot allocate memory''\<rparr>"
proof (rule conjI)
  show "subprocess_run
      (sample_task_env None (Inr ''{}\<newline>{}\<newline>'')
         (Inl (Exn OSError ''[Errno 12] Cannot allocate memory'')))
      ''gitleaks detect --source /tmp/tmpk3/repo --no-git --exit-code 0 --report-format json'' 600
     = Inl (Exn OSError ''[Errno 12] Cannot allocate memory'')"
    by (simp add: sample_task_env_def)
  show "snd (clone_and_scan sample_loads
          (sample_task_env None (Inr ''{}\<newline>{}\<newline>'')
             (Inl (Exn OSError ''[Errno 12] Cannot allocate memory'')))
          ''https://github.com/u/repo.git'')
     = \<lparr>findings = [(''trufflehog'', PList [PDict [], PDict []])],
        status = [(''trufflehog'', ''2 findings'')],
        error = Some ''Error scanning https://github.com/u/repo.git: [Errno 12] Cannot allocate memory''\<rparr>"
    by code_simp
qed

text \<open>The amended claim at work, on the same run and on a run whose temporary directory
  cannot be created.\<close>

theorem task_exception_recorded_witness:
  "fst (scan_tools sample_loads
          (sample_task_env None (Inr ''{}\<newline>{}\<newline>'')
             (Inl (Exn OSError ''[Errno 12] Cannot allocate memory'')))
          ''/tmp/tmpk3/repo'' ''https://github.com/u/repo.git'' TOOLS
          \<lparr>findings = [], status = [], error = None\<rparr>
          [CloneFrom ''https://github.com/u/repo.git'' ''/tmp/tmpk3/repo''])
     = Some (Exn OSError ''[Errno 12] Cannot allocate memory'') \<and>
   error (snd (clone_and_scan sample_loads
          (sample_task_env None (Inr ''{}\<newline>{}\<newline>'')
             (Inl (Exn OSError ''[Errno 12] Cannot allocate memory'')))
          ''https://github.com/u/repo.git''))
     = Some ''Error scanning https://github.com/u/repo.git: [Errno 12] Cannot allocate memory'' \<and>
   (\<exists>done t c rest.
      TOOLS = done @ (t, c) # rest \<and>
      fst ` set (status (snd (clone_and_scan sample_loads
          (sample_task_env None (Inr ''{}\<newline>{}\<newline>'')
             (Inl (Exn OSError ''[Errno 12] Cannot allocate memory'')))
          ''https://github.com/u/repo.git''))) = fst ` set done) \<and>
   snd (clone_and_scan sample_loads
          ((sample_task_env None (Inr ''{}'') (Inr ''{}''))
             \<lparr>mkdtemp := Inl (Exn OSError ''[Errno 28] No space left on device'')\<rparr>)
          ''https://github.com/u/repo.git'')
     = \<lparr>findings = [], status = [],
        error = Some ''Error scanning https://github.com/u/repo.git: [Errno 28] No space left on device''\<rparr>"
proof -
  let ?env = "sample_task_env None (Inr ''{}\<newline>{}\<newline>'')
             (Inl (Exn OSError ''[Errno 12] Cannot allocate memory''))"
  let ?full = "(sample_task_env None (Inr ''{}'') (Inr ''{}''))
             \<lparr>mkdtemp := Inl (Exn OSError ''[Errno 28] No space left on device'')\<rparr>"
  let ?url = "''https://github.com/u/repo.git''"
  let ?e = "Exn OSError ''[Errno 12] Cannot allocate memory''"
  let ?X = "scan_tools sample_loads ?env ''/tmp/tmpk3/repo'' ?url TOOLS
          \<lparr>findings = [], status = [], error = None\<rparr> [CloneFrom ?url ''/tmp/tmpk3/repo'']"
  let ?cs = "snd (clone_and_scan sample_loads ?env ?url)"
  have raised: "fst ?X = Some ?e" by code_simp
  have md: "mkdtemp ?env = Inr ''/tmp/tmpk3''" by (simp add: sample_task_env_def)
  have rd: "''/tmp/tmpk3/repo'' = path_join ''/tmp/tmpk3'' (repo_name_of ?url)"
    by (simp add: path_join_def repo_name_of_def)
  have ne: "''/tmp/tmpk3/repo'' \<noteq> []" by simp
  have cf: "clone_from ?env ?url ''/tmp/tmpk3/repo'' = None" by (simp add: sample_task_env_def)
  have x: "?X = (fst ?X, fst (snd ?X), snd (snd ?X))" by simp
  have cl: "cleanup ?env ''/tmp/tmpk3'' = None" by (simp add: sample_task_env_def)
  note inst = task_exception_recorded[where loads = sample_loads and env = ?env
      and repo_url = ?url and temp_dir = "''/tmp/tmpk3''" and repo_dir = "''/tmp/tmpk3/repo''"
      and raised = "fst ?X" and kept = "fst (snd ?X)" and trace = "snd (snd ?X)"]
  note loop = inst[THEN conjunct2, THEN conjunct2, THEN conjunct2, rule_format,
      OF conjI[OF md conjI[OF rd conjI[OF ne conjI[OF cf x]]]]]
  from loop[THEN conjunct1] have er: "error ?cs = Some (scan_error ?url ?e)"
    unfolding cl raised by simp
  have se: "scan_error ?url ?e
      = ''Error scanning https://github.com/u/repo.git: [Errno 12] Cannot allocate memory''"
    by (simp add: scan_error_def)
  from loop[THEN conjunct2, THEN conjunct2, THEN conjunct1]
  have st: "status ?cs = status (fst (snd ?X))" .
  from loop[THEN conjunct2, THEN conjunct2, THEN conjunct2, rule_format, OF raised]
  obtain done' t c rest where
    tl: "TOOLS = done' @ (t, c) # rest" and
    ks: "fst ` set (status (fst (snd ?X))) = fst ` set done'"
    by (elim exE conjE) (rule that, assumption+)
  from ks have ks': "fst ` set (status ?cs) = fst ` set done'" unfolding st .
  have ex: "\<exists>done t c rest. TOOLS = done @ (t, c) # rest \<and> fst ` set (status ?cs) = fst ` set done"
    by (rule exI[of _ done'], rule exI[of _ t], rule exI[of _ c], rule exI[of _ rest],
        rule conjI[OF tl ks'])
  have mf: "mkdtemp ?full = Inl (Exn OSError ''[Errno 28] No space left on device'')"
    by (simp add: sample_task_env_def)
  from task_exception_recorded[where loads = sample_loads and env = ?full and repo_url = ?url
      and e = "Exn OSError ''[Errno 28] No space left on device''",
      THEN conjunct2, THEN conjunct2, THEN conjunct1, rule_format, OF mf]
  have nf: "snd (clone_and_scan sample_loads ?full ?url)
     = \<lparr>findings = [], status = [],
        error = Some ''Error scanning https://github.com/u/repo.git: [Errno 28] No space left on device''\<rparr>"
    by (simp add: scan_error_def)
  show ?thesis
    by (intro conjI raised er[unfolded se] ex nf)
qed

end
